theory Spec2Isabelle
  imports
    Complex_Main
    "HOL-Library.Product_Lexorder"
    "HOL-Library.List_Lexorder"
    "HOL-Library.Char_ord"
begin

section \<open>Python values used by the fleet server\<close>

text \<open>
  The development embeds the server of \<^verbatim>\<open>src/10.py\<close>. A Python \<^verbatim>\<open>dict\<close> whose
  iteration order is observable (the road map, the robot table, the job table) is an
  association list in insertion order; a failing subscript \<^verbatim>\<open>d[k]\<close> and
  \<^verbatim>\<open>list.remove\<close> of an absent element are error values.
\<close>

datatype py_error = KeyError | ValueError | IndexError

type_synonym cell = string

type_synonym ('k, 'v) dict = "('k \<times> 'v) list"

definition dict_get :: "('k, 'v) dict \<Rightarrow> 'k \<Rightarrow> 'v option" where
  "dict_get d k = map_of d k"

definition dict_get_default :: "('k, 'v) dict \<Rightarrow> 'k \<Rightarrow> 'v \<Rightarrow> 'v" where
  "dict_get_default d k v = (case map_of d k of None \<Rightarrow> v | Some x \<Rightarrow> x)"

definition dict_index :: "('k, 'v) dict \<Rightarrow> 'k \<Rightarrow> py_error + 'v" where
  "dict_index d k = (case map_of d k of None \<Rightarrow> Inl KeyError | Some x \<Rightarrow> Inr x)"

fun dict_update :: "('k, 'v) dict \<Rightarrow> 'k \<Rightarrow> ('v \<Rightarrow> 'v) \<Rightarrow> ('k, 'v) dict" where
  "dict_update [] k f = []"
| "dict_update ((k', v') # d) k f = (if k' = k then (k', f v') # d else (k', v') # dict_update d k f)"

fun dict_set :: "('k, 'v) dict \<Rightarrow> 'k \<Rightarrow> 'v \<Rightarrow> ('k, 'v) dict" where
  "dict_set [] k v = [(k, v)]"
| "dict_set ((k', v') # d) k v = (if k' = k then (k, v) # d else (k', v') # dict_set d k v)"

section \<open>Map graph\<close>

type_synonym graph = "(cell, (string, cell) dict) dict"

definition GRAPH :: graph where
  "GRAPH = [
    (''11'', [(''s'', ''21'')]),
    (''12'', [(''s'', ''22'')]),
    (''13'', [(''s'', ''23'')]),
    (''15'', [(''s'', ''25'')]),
    (''21'', [(''n'', ''11''), (''e'', ''22''), (''s'', ''31'')]),
    (''22'', [(''n'', ''12''), (''s'', ''32''), (''w'', ''21''), (''e'', ''23'')]),
    (''23'', [(''n'', ''13''), (''s'', ''33''), (''w'', ''22'')]),
    (''24'', [(''e'', ''25''), (''s'', ''34'')]),
    (''25'', [(''n'', ''15''), (''s'', ''35''), (''e'', ''26''), (''w'', ''24'')]),
    (''26'', [(''w'', ''25'')]),
    (''31'', [(''n'', ''21''), (''e'', ''32'')]),
    (''32'', [(''n'', ''22''), (''e'', ''33''), (''w'', ''31'')]),
    (''33'', [(''n'', ''23''), (''s'', ''43''), (''e'', ''34''), (''w'', ''32'')]),
    (''34'', [(''n'', ''24''), (''s'', ''44''), (''e'', ''35''), (''w'', ''33'')]),
    (''35'', [(''w'', ''34''), (''n'', ''25''), (''e'', ''36''), (''s'', ''45'')]),
    (''36'', [(''w'', ''35''), (''s'', ''46'')]),
    (''42'', [(''s'', ''52'')]),
    (''43'', [(''n'', ''33''), (''s'', ''53''), (''e'', ''44'')]),
    (''44'', [(''w'', ''43''), (''n'', ''34''), (''e'', ''45'')]),
    (''45'', [(''w'', ''44''), (''n'', ''35''), (''s'', ''65''), (''e'', ''46'')]),
    (''46'', [(''w'', ''45''), (''n'', ''36'')]),
    (''51'', [(''e'', ''52'')]),
    (''52'', [(''s'', ''62''), (''e'', ''53''), (''n'', ''42''), (''w'', ''51'')]),
    (''53'', [(''w'', ''52''), (''n'', ''43''), (''s'', ''63'')]),
    (''56'', [(''s'', ''66'')]),
    (''62'', [(''n'', ''52'')]),
    (''63'', [(''s'', ''73''), (''e'', ''64''), (''n'', ''53'')]),
    (''64'', [(''w'', ''63''), (''e'', ''65''), (''s'', ''84'')]),
    (''65'', [(''n'', ''45''), (''s'', ''75''), (''e'', ''66''), (''w'', ''64'')]),
    (''66'', [(''w'', ''65''), (''n'', ''56''), (''s'', ''76'')]),
    (''71'', [(''s'', ''81''), (''e'', ''72'')]),
    (''72'', [(''s'', ''82''), (''e'', ''73''), (''w'', ''71'')]),
    (''73'', [(''w'', ''72''), (''s'', ''83''), (''n'', ''63'')]),
    (''75'', [(''n'', ''65''), (''s'', ''85''), (''e'', ''76'')]),
    (''76'', [(''w'', ''75''), (''n'', ''66''), (''s'', ''86'')]),
    (''81'', [(''n'', ''71'')]),
    (''82'', [(''n'', ''72'')]),
    (''83'', [(''n'', ''73'')]),
    (''84'', [(''n'', ''64'')]),
    (''85'', [(''n'', ''75'')]),
    (''86'', [(''n'', ''76'')])]"

definition PARKING_NODES :: "cell list" where
  "PARKING_NODES = [''81'', ''82'', ''83'', ''84'', ''85'', ''86'', ''11'', ''12'', ''13'',
     ''15'', ''26'', ''31'', ''46'', ''51'', ''56'']"

definition MAX_SEARCH_DEPTH :: int where
  "MAX_SEARCH_DEPTH = 60"

section \<open>Instruction generation helpers\<close>

text \<open>
  The command tokens \<^verbatim>\<open>'S'\<close>, \<^verbatim>\<open>'R'\<close>, \<^verbatim>\<open>'L'\<close>, \<^verbatim>\<open>'U'\<close> and \<^verbatim>\<open>'D'\<close>. Headings stay
  strings: a robot reports its heading itself and the server stores what it received.
\<close>

datatype cmd = CmdS | CmdR | CmdL | CmdU | CmdD

definition CLOCKWISE :: "(string, string) dict" where
  "CLOCKWISE = [(''n'', ''e''), (''e'', ''s''), (''s'', ''w''), (''w'', ''n'')]"

definition CCW :: "(string, string) dict" where
  "CCW = map (\<lambda>(k, v). (v, k)) CLOCKWISE"

definition OPP :: "(string, string) dict" where
  "OPP = [(''n'', ''s''), (''s'', ''n''), (''e'', ''w''), (''w'', ''e'')]"

text \<open>\<^verbatim>\<open>direction_between\<close> subscripts the global map, so an unknown cell raises.\<close>

definition direction_between :: "cell \<Rightarrow> cell \<Rightarrow> py_error + string option" where
  "direction_between a b =
     (case dict_index GRAPH a of
        Inl e \<Rightarrow> Inl e
      | Inr nbrs \<Rightarrow> Inr (map_option fst (find (\<lambda>(d, nb). nb = b) nbrs)))"

definition instruction_from_dirs :: "string \<Rightarrow> string \<Rightarrow> py_error + cmd" where
  "instruction_from_dirs cur target =
     (if cur = target then Inr CmdS
      else case dict_index CLOCKWISE cur of
        Inl e \<Rightarrow> Inl e
      | Inr cw \<Rightarrow>
          if cw = target then Inr CmdR
          else case dict_index CCW cur of
            Inl e \<Rightarrow> Inl e
          | Inr ccw \<Rightarrow>
              if ccw = target then Inr CmdL
              else case dict_index OPP cur of
                Inl e \<Rightarrow> Inl e
              | Inr opp \<Rightarrow> if opp = target then Inr CmdU else Inr CmdS)"

text \<open>
  The body of the \<^verbatim>\<open>for\<close> loop of \<^verbatim>\<open>path_to_instr_list\<close>, for one pair of
  successive cells: the command appended and the new running heading. The test
  \<^verbatim>\<open>if not target\<close> holds for \<^verbatim>\<open>None\<close> and for the empty string.
\<close>

definition instr_step :: "cell \<Rightarrow> cell \<Rightarrow> string \<Rightarrow> py_error + (cmd \<times> string)" where
  "instr_step a b cur =
     (case direction_between a b of
        Inl e \<Rightarrow> Inl e
      | Inr None \<Rightarrow> Inr (CmdU, dict_get_default OPP cur cur)
      | Inr (Some target) \<Rightarrow>
          if target = [] then Inr (CmdU, dict_get_default OPP cur cur)
          else case instruction_from_dirs cur target of
            Inl e \<Rightarrow> Inl e
          | Inr c \<Rightarrow>
              (case c of
                 CmdR \<Rightarrow> (case dict_index CLOCKWISE cur of Inl e \<Rightarrow> Inl e | Inr h \<Rightarrow> Inr (c, h))
               | CmdL \<Rightarrow> (case dict_index CCW cur of Inl e \<Rightarrow> Inl e | Inr h \<Rightarrow> Inr (c, h))
               | CmdU \<Rightarrow> (case dict_index OPP cur of Inl e \<Rightarrow> Inl e | Inr h \<Rightarrow> Inr (c, h))
               | _ \<Rightarrow> Inr (c, cur)))"

fun instr_loop :: "cell list \<Rightarrow> cmd list \<Rightarrow> string \<Rightarrow> py_error + (cmd list \<times> string)" where
  "instr_loop (a # b # rest) instrs cur =
     (case instr_step a b cur of
        Inl e \<Rightarrow> Inl e
      | Inr (c, cur') \<Rightarrow> instr_loop (b # rest) (instrs @ [c]) cur')"
| "instr_loop _ instrs cur = Inr (instrs, cur)"

definition path_to_instr_list :: "cell list \<Rightarrow> string \<Rightarrow> py_error + (cmd list \<times> string)" where
  "path_to_instr_list path initial_dir = instr_loop path [] initial_dir"

text \<open>
  \<^verbatim>\<open>build_plan_array\<close> reads \<^verbatim>\<open>instr_list[i]\<close> for every \<^verbatim>\<open>i < len(path) - 1\<close>, which
  raises when the instruction list is too short.
\<close>

definition build_plan_array :: "cell list \<Rightarrow> cmd list \<Rightarrow> py_error + (cell \<times> cmd) list" where
  "build_plan_array path instr_list =
     (if length instr_list < length path - 1 then Inl IndexError
      else Inr (zip (butlast path) instr_list @ (if path = [] then [] else [(last path, CmdD)])))"

definition cmd_char :: "cmd \<Rightarrow> char" where
  "cmd_char c = (case c of CmdS \<Rightarrow> CHR ''S'' | CmdR \<Rightarrow> CHR ''R'' | CmdL \<Rightarrow> CHR ''L''
                  | CmdU \<Rightarrow> CHR ''U'' | CmdD \<Rightarrow> CHR ''D'')"

fun join_space :: "string list \<Rightarrow> string" where
  "join_space [] = []"
| "join_space [x] = x"
| "join_space (x # y # ys) = x @ '' '' @ join_space (y # ys)"

definition plan_to_str :: "(cell \<times> cmd) list \<Rightarrow> string" where
  "plan_to_str plan = join_space (map (\<lambda>(n, c). n @ '' '' @ [cmd_char c]) plan)"

section \<open>State\<close>

text \<open>
  A robot is the dictionary that \<^verbatim>\<open>register_robot\<close> creates; the key
  \<^verbatim>\<open>current_job\<close> is optional. Its status only ever holds \<^verbatim>\<open>'idle'\<close> or \<^verbatim>\<open>'busy'\<close>.
  Clock readings (\<^verbatim>\<open>time.time()\<close>) are rationals; \<^verbatim>\<open>int(time.time())\<close> is an integer.
\<close>

datatype robot_status = Idle | Busy

record robot =
  status :: robot_status
  node :: cell
  last_seen :: rat
  color :: string
  current_path :: "cell list"
  dir :: string
  current_job :: "string option"

text \<open>
  A job dictionary. Keys that are absent until first written (\<^verbatim>\<open>path\<close>, \<^verbatim>\<open>plan\<close>,
  \<^verbatim>\<open>plan_str\<close>, \<^verbatim>\<open>progress_index\<close>) are options, an absent key and the value
  \<^verbatim>\<open>None\<close> being read alike by every reader; \<^verbatim>\<open>progress_trace\<close> and \<^verbatim>\<open>reports\<close>
  are created empty by \<^verbatim>\<open>setdefault\<close>. A trace entry is (step index, node, dir, ts);
  a report is (robot, nodes with dir, ts), the node list being empty when the report
  carries none; each reported node is a dictionary with optional \<^verbatim>\<open>node\<close> and
  \<^verbatim>\<open>dir\<close>.
\<close>

datatype job_status = Queued | Assigned | Done | Failed

type_synonym trace_entry = "int \<times> cell \<times> string \<times> rat"
type_synonym node_dir = "cell option \<times> string option"
type_synonym report = "string \<times> node_dir list \<times> rat"

record job =
  job_id :: string
  pickup :: cell
  drop_node :: cell
  submitted_ts :: rat
  job_status :: job_status
  assigned_robot :: "string option"
  progress_index :: "int option"
  path :: "cell list option"
  plan :: "(cell \<times> cmd) list option"
  plan_str :: "string option"
  progress_trace :: "trace_entry list"
  reports :: "report list"

text \<open>
  The four global tables. The job table and the job queue hold references to the same
  job dictionaries, which are mutated in place, so the job objects live in a store
  indexed by address: \<^verbatim>\<open>jobs\<close> maps a job id to an address, \<^verbatim>\<open>job_queue\<close> is a list
  of addresses, and \<open>next_obj\<close> is the next unused address. The reservation table
  maps (node, time) to a robot id.
\<close>

record state =
  robots :: "(string, robot) dict"
  job_objs :: "nat \<Rightarrow> job"
  next_obj :: nat
  jobs :: "(string, nat) dict"
  job_queue :: "nat list"
  reservations :: "cell \<times> int \<rightharpoonup> string"

section \<open>Helpers, pathfinding, reservations\<close>

text \<open>
  \<^verbatim>\<open>int(c)\<close> of a one-character string, for the ASCII digits; anything else raises
  and \<^verbatim>\<open>build_coords\<close> falls back to (0, 0), as it does when the name is shorter than
  two characters.
\<close>

definition digit_of :: "char \<Rightarrow> int option" where
  "digit_of c = (if CHR ''0'' \<le> c \<and> c \<le> CHR ''9'' then Some (int (of_char c) - 48) else None)"

definition coords_of :: "cell \<Rightarrow> int \<times> int" where
  "coords_of n =
     (case n of
        c0 # c1 # _ \<Rightarrow>
          (case (digit_of c1, digit_of c0) of (Some x, Some y) \<Rightarrow> (x, y) | _ \<Rightarrow> (0, 0))
      | _ \<Rightarrow> (0, 0))"

definition build_coords :: "graph \<Rightarrow> (cell, int \<times> int) dict" where
  "build_coords g = map (\<lambda>(n, _). (n, coords_of n)) g"

definition NODE_COORDS :: "(cell, int \<times> int) dict" where
  "NODE_COORDS = build_coords GRAPH"

definition get_manhattan_dist :: "cell \<Rightarrow> cell \<Rightarrow> int" where
  "get_manhattan_dist a b =
     (let (ax, ay) = dict_get_default NODE_COORDS a (0, 0);
          (bx, by) = dict_get_default NODE_COORDS b (0, 0)
      in \<bar>ax - bx\<bar> + \<bar>ay - by\<bar>)"

text \<open>
  The planner adds the wait penalty 1.1 to the step count, so the time it passes to
  \<^verbatim>\<open>is_safe\<close> is a fraction after a wait. Costs and these times are exact rationals
  here (the source computes them in binary floating point). A reservation key holds an
  integer time, so a lookup at a time that is not an integer finds nothing.
\<close>

definition reservations_get :: "state \<Rightarrow> cell \<Rightarrow> rat \<Rightarrow> string option" where
  "reservations_get s n t =
     (if of_int \<lfloor>t\<rfloor> = t then reservations s (n, \<lfloor>t\<rfloor>) else None)"

definition is_safe :: "state \<Rightarrow> cell \<Rightarrow> rat \<Rightarrow> string \<Rightarrow> bool" where
  "is_safe s n t rid =
     (case reservations_get s n t of
        Some owner \<Rightarrow>
          if owner \<noteq> [] \<and> owner \<noteq> rid then False
          else \<not> list_ex (\<lambda>(orid, info). orid \<noteq> rid \<and> status info = Idle \<and> node info = n) (robots s)
      | None \<Rightarrow>
          \<not> list_ex (\<lambda>(orid, info). orid \<noteq> rid \<and> status info = Idle \<and> node info = n) (robots s))"

text \<open>
  The open set is a \<^verbatim>\<open>heapq\<close> of tuples (f, g, node, path). \<^verbatim>\<open>heappop\<close> returns the
  least tuple in Python's lexicographic tuple order, so the heap is kept as a plain list
  and the least element is taken out of it.
\<close>

type_synonym entry = "rat \<times> rat \<times> cell \<times> cell list"

definition heappush :: "entry list \<Rightarrow> entry \<Rightarrow> entry list" where
  "heappush h x = x # h"

definition heappop :: "entry list \<Rightarrow> entry \<times> entry list" where
  "heappop h = (let m = Min (set h) in (m, remove1 m h))"

text \<open>The inner \<^verbatim>\<open>for nb in neighbors\<close> loop of the planner.\<close>

fun expand ::
  "state \<Rightarrow> cell \<Rightarrow> string \<Rightarrow> rat \<Rightarrow> rat \<Rightarrow> cell \<Rightarrow> cell list \<Rightarrow> cell list \<Rightarrow>
   entry list \<times> (cell \<times> rat) set \<Rightarrow> entry list \<times> (cell \<times> rat) set" where
  "expand s goal rid current_time g cur pth [] (open_set, visited) = (open_set, visited)"
| "expand s goal rid current_time g cur pth (nb # nbs) (open_set, visited) =
     (let nt = current_time + 1 in
      if (nb, nt) \<in> visited then expand s goal rid current_time g cur pth nbs (open_set, visited)
      else if is_safe s nb nt rid then
        (let ng = g + 1;
             ng = (if nb = cur then ng + 11 / 10 else ng);
             h = get_manhattan_dist nb goal
         in expand s goal rid current_time g cur pth nbs
              (heappush open_set (ng + of_int h, ng, nb, pth @ [nb]), insert (nb, nt) visited))
      else expand s goal rid current_time g cur pth nbs (open_set, visited))"

text \<open>The \<^verbatim>\<open>while open_set\<close> loop of the planner.\<close>

function a_star_loop ::
  "graph \<Rightarrow> state \<Rightarrow> cell \<Rightarrow> int \<Rightarrow> string \<Rightarrow> int \<Rightarrow> entry list \<Rightarrow> (cell \<times> rat) set \<Rightarrow>
   py_error + cell list option" where
  "a_star_loop gr s goal t0 rid max_time open_set visited =
     (if open_set = [] then Inr None
      else case heappop open_set of
        ((f, g, cur, pth), rest) \<Rightarrow>
          if cur = goal then Inr (Some pth)
          else if of_int max_time \<le> g then a_star_loop gr s goal t0 rid max_time rest visited
          else case dict_index gr cur of
            Inl e \<Rightarrow> Inl e
          | Inr nbrs \<Rightarrow>
              (case expand s goal rid (of_int t0 + g) g cur pth (map snd nbrs @ [cur]) (rest, visited) of
                 (open_set', visited') \<Rightarrow> a_star_loop gr s goal t0 rid max_time open_set' visited'))"
  by pat_completeness auto

text \<open>
  Termination: an entry with cost \<open>g\<close> can be expanded only while \<open>g\<close> is below the depth
  bound, each child costs at least one more, and a cell has boundedly many successors, so
  the open set weighs less after every iteration.
\<close>

definition branching :: "graph \<Rightarrow> nat" where
  "branching gr = Suc (Suc (fold max (map (\<lambda>(n, nbrs). length nbrs) gr) 0))"

definition depth_left :: "int \<Rightarrow> rat \<Rightarrow> nat" where
  "depth_left max_time g = nat \<lceil>of_int max_time - g\<rceil>"

definition weight :: "graph \<Rightarrow> int \<Rightarrow> entry \<Rightarrow> nat" where
  "weight gr max_time e = branching gr ^ depth_left max_time (fst (snd e))"

definition open_weight :: "graph \<Rightarrow> int \<Rightarrow> entry list \<Rightarrow> nat" where
  "open_weight gr max_time h = sum_list (map (weight gr max_time) h)"

lemma fold_max_ge: "(a::nat) \<le> fold max xs a"
  by (induction xs arbitrary: a) (auto intro: order_trans [OF max.cobounded2])

lemma fold_max_mem: "(x::nat) \<in> set xs \<Longrightarrow> x \<le> fold max xs a"
proof (induction xs arbitrary: a)
  case Nil
  then show ?case by simp
next
  case (Cons y ys)
  show ?case
  proof (cases "x = y")
    case True
    have "y \<le> max y a" by simp
    also have "\<dots> \<le> fold max ys (max y a)" by (rule fold_max_ge)
    finally show ?thesis using True by simp
  next
    case False
    with Cons show ?thesis by simp
  qed
qed

lemma branching_bound:
  assumes "dict_index gr c = Inr nbrs"
  shows "length nbrs + 2 \<le> branching gr"
proof -
  from assms have "map_of gr c = Some nbrs"
    by (simp add: dict_index_def split: option.splits)
  then have "(c, nbrs) \<in> set gr" by (rule map_of_SomeD)
  then have "length nbrs \<in> set (map (\<lambda>(n, nbrs). length nbrs) gr)" by force
  then have "length nbrs \<le> fold max (map (\<lambda>(n, nbrs). length nbrs) gr) 0"
    by (rule fold_max_mem)
  then show ?thesis by (simp add: branching_def)
qed

lemma branching_pos: "1 \<le> branching gr"
  by (simp add: branching_def)

lemma depth_left_step:
  assumes "g + 1 \<le> g'"
  shows "depth_left mt g' \<le> depth_left mt g - 1"
proof -
  have "of_int mt - g' \<le> of_int mt - g - 1" using assms by simp
  then have "\<lceil>of_int mt - g'\<rceil> \<le> \<lceil>of_int mt - g - 1\<rceil>" by (rule ceiling_mono)
  also have "\<dots> = \<lceil>of_int mt - g\<rceil> - 1" by simp
  finally show ?thesis by (simp add: depth_left_def)
qed

lemma weight_child:
  assumes "g + 1 \<le> g'"
  shows "weight gr mt (f', g', c, p) \<le> branching gr ^ (depth_left mt g - 1)"
  unfolding weight_def using depth_left_step [OF assms] branching_pos [of gr]
  by (simp add: power_increasing)

lemma expand_weight:
  "open_weight gr mt (fst (expand s goal rid ct g cur pth nbs (h, vis)))
     \<le> open_weight gr mt h + length nbs * branching gr ^ (depth_left mt g - 1)"
proof (induction nbs arbitrary: h vis)
  case Nil
  then show ?case by simp
next
  case (Cons nb nbs)
  let ?w = "branching gr ^ (depth_left mt g - 1)"
  let ?ng = "if nb = cur then g + 1 + 11 / 10 else g + 1"
  let ?e = "(?ng + of_int (get_manhattan_dist nb goal), ?ng, nb, pth @ [nb])"
  have child: "weight gr mt ?e \<le> ?w"
    by (rule weight_child) simp
  show ?case
  proof (cases "(nb, ct + 1) \<notin> vis \<and> is_safe s nb (ct + 1) rid")
    case True
    have "open_weight gr mt (fst (expand s goal rid ct g cur pth nbs (heappush h ?e, insert (nb, ct + 1) vis)))
            \<le> open_weight gr mt (heappush h ?e) + length nbs * ?w"
      by (rule Cons.IH)
    also have "open_weight gr mt (heappush h ?e) = weight gr mt ?e + open_weight gr mt h"
      by (simp add: open_weight_def heappush_def)
    finally show ?thesis using True child by (simp add: Let_def)
  next
    case False
    have "open_weight gr mt (fst (expand s goal rid ct g cur pth nbs (h, vis)))
            \<le> open_weight gr mt h + length nbs * ?w"
      by (rule Cons.IH)
    then show ?thesis using False by (auto simp: Let_def)
  qed
qed

lemma heappop_weight:
  assumes "h \<noteq> []" and "heappop h = (m, rest)"
  shows "open_weight gr mt h = weight gr mt m + open_weight gr mt rest"
proof -
  have m: "m = Min (set h)" and rest: "rest = remove1 m h"
    using assms(2) by (auto simp: heappop_def Let_def)
  have "m \<in> set h" unfolding m using assms(1) by (intro Min_in) auto
  then show ?thesis
    unfolding open_weight_def rest by (simp add: sum_list_map_remove1)
qed

lemma weight_pos: "0 < weight gr mt e"
  by (simp add: weight_def branching_def)

termination a_star_loop
proof (relation "measure (\<lambda>(gr, s, goal, t0, rid, max_time, open_set, visited).
                    open_weight gr max_time open_set)", goal_cases)
  case 1
  show ?case by simp
next
  case (2 gr s goal t0 rid max_time open_set visited x y xa ya xb yb xc yaa)
  then have "heappop open_set = ((xa, xb, xc, yaa), y)" by simp
  from heappop_weight [OF \<open>open_set \<noteq> []\<close> this, of gr max_time]
  show ?case using weight_pos [of gr max_time "(xa, xb, xc, yaa)"] by simp
next
  case (3 gr s goal t0 rid max_time open_set visited x y xa ya xb yb xc yaa b xd yab)
  then have pop: "heappop open_set = ((xa, xb, xc, yaa), y)" by simp
  let ?B = "branching gr"
  let ?d = "depth_left max_time xb"
  have dpos: "0 < ?d" using 3 by (simp add: depth_left_def)
  have "open_weight gr max_time xd
          \<le> open_weight gr max_time y + length (map snd b @ [xc]) * ?B ^ (?d - 1)"
    using expand_weight [of gr max_time s goal rid "of_int t0 + xb" xb xc yaa "map snd b @ [xc]" y visited]
      3 by (metis fst_conv)
  also have "length (map snd b @ [xc]) * ?B ^ (?d - 1) < ?B * ?B ^ (?d - 1)"
    using branching_bound [OF \<open>dict_index gr xc = Inr b\<close>] branching_pos [of gr]
    by (intro mult_strict_right_mono) auto
  also have "?B * ?B ^ (?d - 1) = ?B ^ ?d"
    using dpos by (cases ?d) auto
  finally have "open_weight gr max_time xd < open_weight gr max_time y + weight gr max_time (xa, xb, xc, yaa)"
    by (simp add: weight_def)
  then show ?case using heappop_weight [OF \<open>open_set \<noteq> []\<close> pop, of gr max_time] by simp
qed


definition space_time_a_star ::
  "graph \<Rightarrow> state \<Rightarrow> cell \<Rightarrow> cell \<Rightarrow> int \<Rightarrow> string \<Rightarrow> int \<Rightarrow> py_error + cell list option" where
  "space_time_a_star gr s start goal t0 rid max_time =
     a_star_loop gr s goal t0 rid max_time (heappush [] (0, 0, start, [start])) {}"


declare a_star_loop.simps [simp del]

text \<open>
  \<^verbatim>\<open>reserve_path_trajectory\<close> first deletes every key the robot owns, then writes the
  path cell by cell from \<^verbatim>\<open>t0\<close>, overwriting whatever a key held.
\<close>

definition release_owner :: "(cell \<times> int \<rightharpoonup> string) \<Rightarrow> string \<Rightarrow> (cell \<times> int \<rightharpoonup> string)" where
  "release_owner res rid = (\<lambda>k. if res k = Some rid then None else res k)"

fun reserve_cells ::
  "(cell \<times> int \<rightharpoonup> string) \<Rightarrow> cell list \<Rightarrow> int \<Rightarrow> string \<Rightarrow> (cell \<times> int \<rightharpoonup> string)" where
  "reserve_cells res [] t rid = res"
| "reserve_cells res (n # ns) t rid = reserve_cells (res((n, t) \<mapsto> rid)) ns (t + 1) rid"

definition reserve_path_trajectory :: "state \<Rightarrow> cell list \<Rightarrow> int \<Rightarrow> string \<Rightarrow> state" where
  "reserve_path_trajectory s pth t0 rid =
     s\<lparr>reservations := reserve_cells (release_owner (reservations s) rid) pth t0 rid\<rparr>"

definition occupied :: "state \<Rightarrow> cell \<Rightarrow> bool" where
  "occupied s p = list_ex (\<lambda>r. node r = p \<and> status r = Idle) (map snd (robots s))"

definition find_nearest_parking :: "state \<Rightarrow> cell \<Rightarrow> cell option" where
  "find_nearest_parking s n =
     (let candidates =
            map (\<lambda>p. (get_manhattan_dist n p, p)) (filter (\<lambda>p. \<not> occupied s p) PARKING_NODES)
      in if candidates = [] then None else Some (snd (hd (sort candidates))))"

text \<open>
  \<^verbatim>\<open>create_system_job\<close>: the job id (a fresh \<^verbatim>\<open>uuid4\<close> prefix) and the clock reading are
  inputs. The new dictionary gets the next address of the store; the address is returned
  with the state.
\<close>

definition create_system_job ::
  "state \<Rightarrow> string \<Rightarrow> rat \<Rightarrow> cell \<Rightarrow> cell \<Rightarrow> string \<Rightarrow> state \<times> nat" where
  "create_system_job s jid ts pk dr rid =
     (let a = next_obj s;
          j = \<lparr>job_id = jid, pickup = pk, drop_node = dr, submitted_ts = ts,
               job_status = (if rid \<noteq> [] then Assigned else Queued),
               assigned_robot = Some rid, progress_index = None, path = None, plan = None,
               plan_str = None, progress_trace = [], reports = []\<rparr>
      in (s\<lparr>job_objs := (job_objs s)(a := j), next_obj := Suc a,
             jobs := dict_set (jobs s) jid a\<rparr>, a))"

definition update_job :: "state \<Rightarrow> nat \<Rightarrow> (job \<Rightarrow> job) \<Rightarrow> state" where
  "update_job s a f = s\<lparr>job_objs := (job_objs s)(a := f (job_objs s a))\<rparr>"

definition update_robot :: "state \<Rightarrow> string \<Rightarrow> (robot \<Rightarrow> robot) \<Rightarrow> state" where
  "update_robot s rid f = s\<lparr>robots := dict_update (robots s) rid f\<rparr>"

section \<open>Allocator\<close>

text \<open>
  \<^verbatim>\<open>list.remove(x)\<close> deletes the first element equal to \<^verbatim>\<open>x\<close> and raises
  \<^verbatim>\<open>ValueError\<close> when there is none; dictionaries compare by value.
\<close>

fun list_remove :: "('a \<Rightarrow> bool) \<Rightarrow> 'a list \<Rightarrow> py_error + 'a list" where
  "list_remove P [] = Inl ValueError"
| "list_remove P (x # xs) =
     (if P x then Inr xs
      else case list_remove P xs of Inl e \<Rightarrow> Inl e | Inr ys \<Rightarrow> Inr (x # ys))"

text \<open>
  The idle robots in table order, and the robot the allocator picks for a pickup cell:
  the head of the idle list after Python's stable \<^verbatim>\<open>sort\<close> by Manhattan distance. The
  ids sorted are keys of the robot table, so the subscript in the sort key cannot fail.
\<close>

definition idle_robots :: "state \<Rightarrow> string list" where
  "idle_robots s = map fst (filter (\<lambda>(r, info). status info = Idle) (robots s))"

definition robot_node :: "state \<Rightarrow> string \<Rightarrow> cell" where
  "robot_node s rid = node (the (dict_get (robots s) rid))"

definition pick_robot :: "state \<Rightarrow> cell \<Rightarrow> string" where
  "pick_robot s pk =
     hd (sort_key (\<lambda>rid. get_manhattan_dist (robot_node s rid) pk) (idle_robots s))"

text \<open>
  The plan the allocator builds from the full path and the full instruction list, with
  its fallback when the lengths disagree.
\<close>

definition allocator_plan :: "cell list \<Rightarrow> cmd list \<Rightarrow> (cell \<times> cmd) list" where
  "allocator_plan full_path full_instr =
     (if int (length full_path) - 1 = int (length full_instr)
      then zip (butlast full_path) full_instr @ [(last full_path, CmdD)]
      else [(last full_path, CmdD)])"

text \<open>
  The body of \<^verbatim>\<open>for job in pending\<close> once an idle robot exists, for the job at address
  \<open>a\<close>. An exception leaves the loop with the state as mutated so far.
\<close>

definition allocate_job :: "int \<Rightarrow> nat \<Rightarrow> state \<Rightarrow> state \<times> py_error option" where
  "allocate_job current_t a s =
     (let jb = job_objs s a;
          rid = pick_robot s (pickup jb)
      in case dict_index (robots s) rid of
        Inl e \<Rightarrow> (s, Some e)
      | Inr info \<Rightarrow>
          let start_node = node info; start_dir = dir info in
          case space_time_a_star GRAPH s start_node (pickup jb) current_t rid MAX_SEARCH_DEPTH of
            Inl e \<Rightarrow> (s, Some e)
          | Inr None \<Rightarrow> (s, None)
          | Inr (Some path1) \<Rightarrow>
              if path1 = [] then (s, None)
              else
                let arrival_t = current_t + int (length path1) - 1 in
                case space_time_a_star GRAPH s (pickup jb) (drop_node jb) arrival_t rid MAX_SEARCH_DEPTH of
                  Inl e \<Rightarrow> (s, Some e)
                | Inr None \<Rightarrow> (s, None)
                | Inr (Some path2) \<Rightarrow>
                    if path2 = [] then (s, None)
                    else
                      let full_path = path1 @ drop 1 path2;
                          s1 = reserve_path_trajectory s full_path current_t rid
                      in case path_to_instr_list path1 start_dir of
                        Inl e \<Rightarrow> (s1, Some e)
                      | Inr (instr1, facing_after_pickup) \<Rightarrow>
                          (case path_to_instr_list path2 facing_after_pickup of
                             Inl e \<Rightarrow> (s1, Some e)
                           | Inr (instr2, _) \<Rightarrow>
                               let full_instr = instr1 @ instr2;
                                   pl = allocator_plan full_path full_instr;
                                   s2 = update_job s1 a (\<lambda>j. j\<lparr>assigned_robot := Some rid,
                                          job_status := Assigned, path := Some full_path,
                                          plan := Some pl, plan_str := Some (plan_to_str pl),
                                          progress_index := None\<rparr>)
                               in case list_remove (\<lambda>a'. job_objs s2 a' = job_objs s2 a) (job_queue s2) of
                                 Inl e \<Rightarrow> (s2, Some e)
                               | Inr q \<Rightarrow>
                                   (update_robot (s2\<lparr>job_queue := q\<rparr>) rid
                                      (\<lambda>r. r\<lparr>status := Busy, current_job := Some (job_id (job_objs s2 a)),
                                              current_path := full_path\<rparr>), None)))"

fun allocate_pending :: "int \<Rightarrow> nat list \<Rightarrow> state \<Rightarrow> state \<times> py_error option" where
  "allocate_pending current_t [] s = (s, None)"
| "allocate_pending current_t (a # as) s =
     (if idle_robots s = [] then (s, None)
      else case allocate_job current_t a s of
        (s', Some e) \<Rightarrow> (s', Some e)
      | (s', None) \<Rightarrow> allocate_pending current_t as s')"

text \<open>
  One iteration of \<^verbatim>\<open>allocator_loop\<close> under the lock, at the clock reading
  \<open>current_t = int(time.time())\<close>: drop the reservations of the past, then serve the
  jobs that are queued.
\<close>

definition allocator_tick :: "int \<Rightarrow> state \<Rightarrow> state \<times> py_error option" where
  "allocator_tick current_t s =
     (let s1 = s\<lparr>reservations := (\<lambda>k. if snd k < current_t then None else reservations s k)\<rparr>;
          pending = filter (\<lambda>a. job_status (job_objs s1 a) = Queued) (job_queue s1)
      in allocate_pending current_t pending s1)"

section \<open>HTTP API\<close>

text \<open>
  Request fields are read with \<^verbatim>\<open>data.get\<close>, so a missing field is \<open>None\<close>. The Python
  \<^verbatim>\<open>x or y\<close> on strings takes \<^verbatim>\<open>y\<close> when \<^verbatim>\<open>x\<close> is missing or empty. \<^verbatim>\<open>lower\<close> is
  modelled on the ASCII letters. Values drawn from the environment (\<^verbatim>\<open>uuid4\<close>,
  \<^verbatim>\<open>random_color\<close>, \<^verbatim>\<open>time.time\<close>) are parameters of each operation.
\<close>

definition truthy :: "string option \<Rightarrow> bool" where
  "truthy x = (case x of None \<Rightarrow> False | Some v \<Rightarrow> v \<noteq> [])"

definition py_or :: "string option \<Rightarrow> string option \<Rightarrow> string option" where
  "py_or x y = (if truthy x then x else y)"

definition lower_char :: "char \<Rightarrow> char" where
  "lower_char c =
     (if CHR ''A'' \<le> c \<and> c \<le> CHR ''Z'' then char_of (of_char c + (32::nat)) else c)"

definition lower :: "string \<Rightarrow> string" where
  "lower x = map lower_char x"

definition register_robot ::
  "string option \<Rightarrow> string option \<Rightarrow> string option \<Rightarrow> string option \<Rightarrow>
   string \<Rightarrow> string \<Rightarrow> rat \<Rightarrow> state \<Rightarrow> state" where
  "register_robot robot_id_in node_in dir_in facing_in uuid rnd_color now s =
     (let rid = the (py_or robot_id_in (Some uuid));
          n = the (py_or node_in (Some ''81''));
          direction = lower (the (py_or (py_or dir_in facing_in) (Some ''s'')));
          col = (case dict_get (robots s) rid of Some r \<Rightarrow> color r | None \<Rightarrow> rnd_color)
      in s\<lparr>robots := dict_set (robots s) rid
             \<lparr>status = Idle, node = n, last_seen = now, color = col, current_path = [],
              dir = direction, current_job = None\<rparr>\<rparr>)"

definition submit_job :: "string option \<Rightarrow> string option \<Rightarrow> string \<Rightarrow> rat \<Rightarrow> state \<Rightarrow> state" where
  "submit_job pickup_in drop_in uuid now s =
     (if \<not> truthy pickup_in \<or> \<not> truthy drop_in then s
      else
        let a = next_obj s;
            j = \<lparr>job_id = uuid, pickup = the pickup_in, drop_node = the drop_in,
                 submitted_ts = now, job_status = Queued, assigned_robot = None,
                 progress_index = None, path = None, plan = None, plan_str = None,
                 progress_trace = [], reports = []\<rparr>
        in s\<lparr>job_objs := (job_objs s)(a := j), next_obj := Suc a,
             job_queue := job_queue s @ [a], jobs := dict_set (jobs s) uuid a\<rparr>)"

text \<open>\<^verbatim>\<open>poll_task\<close> returns the state and the job it answers with (if any).\<close>

definition poll_task :: "string \<Rightarrow> rat \<Rightarrow> state \<Rightarrow> state \<times> job option" where
  "poll_task rid now s =
     (case dict_get (robots s) rid of
        None \<Rightarrow> (s, None)
      | Some r \<Rightarrow>
          let s1 = update_robot s rid (\<lambda>r. r\<lparr>last_seen := now\<rparr>) in
          if truthy (current_job r)
          then (s1, map_option (job_objs s1) (dict_get (jobs s1) (the (current_job r))))
          else (s1, None))"

text \<open>
  The auto-parking block of \<^verbatim>\<open>update_location\<close>, entered when the reported node is not
  a parking node. \<open>uuid\<close> is the id drawn for the parking job, \<open>now\<close> the clock
  reading stored in it and \<open>current_t\<close> the reading \<^verbatim>\<open>int(time.time())\<close> taken for the plan.
\<close>

definition auto_park ::
  "string \<Rightarrow> cell \<Rightarrow> string \<Rightarrow> rat \<Rightarrow> int \<Rightarrow> state \<Rightarrow> state \<times> py_error option" where
  "auto_park rid n uuid now current_t s =
     (case find_nearest_parking s n of
        None \<Rightarrow> (s, None)
      | Some parking_spot \<Rightarrow>
          if parking_spot = [] then (s, None)
          else
            let (s1, a) = create_system_job s uuid now n parking_spot rid
            in case space_time_a_star GRAPH s1 n parking_spot current_t rid MAX_SEARCH_DEPTH of
              Inl e \<Rightarrow> (s1, Some e)
            | Inr (Some park_path) \<Rightarrow>
                if park_path = [] then (update_job s1 a (\<lambda>j. j\<lparr>job_status := Failed\<rparr>), None)
                else
                  let s2 = reserve_path_trajectory s1 park_path current_t rid in
                  (case dict_index (robots s2) rid of
                     Inl e \<Rightarrow> (s2, Some e)
                   | Inr info \<Rightarrow>
                       (case path_to_instr_list park_path (dir info) of
                          Inl e \<Rightarrow> (s2, Some e)
                        | Inr (instrs, _) \<Rightarrow>
                            (case build_plan_array park_path instrs of
                               Inl e \<Rightarrow> (s2, Some e)
                             | Inr pl \<Rightarrow>
                                 let s3 = update_job s2 a (\<lambda>j. j\<lparr>plan := Some pl,
                                            plan_str := Some (plan_to_str pl), path := Some park_path\<rparr>)
                                 in (update_robot s3 rid
                                       (\<lambda>r. r\<lparr>status := Busy, current_job := Some (job_id (job_objs s3 a)),
                                               current_path := park_path\<rparr>), None))))
            | Inr None \<Rightarrow> (update_job s1 a (\<lambda>j. j\<lparr>job_status := Failed\<rparr>), None))"

text \<open>
  \<^verbatim>\<open>update_location\<close>, in the three parts of its body. \<open>report_location\<close> stores the
  reported node and heading, shrinks the current path and records the progress;
  \<open>step_index\<close> is the step index when the request carries one that \<^verbatim>\<open>int\<close> accepts.
\<close>

definition report_location ::
  "string \<Rightarrow> cell \<Rightarrow> string option \<Rightarrow> string option \<Rightarrow> int option \<Rightarrow> rat \<Rightarrow> state \<Rightarrow> state" where
  "report_location rid n dir_in facing_in step_index now s =
     (let reported_dir = py_or dir_in facing_in;
          s1 = update_robot s rid (\<lambda>r. r\<lparr>node := n, last_seen := now\<rparr>);
          s2 = (if truthy reported_dir
                then update_robot s1 rid (\<lambda>r. r\<lparr>dir := lower (the reported_dir)\<rparr>) else s1);
          s3 = update_robot s2 rid
                 (\<lambda>r. if n \<in> set (current_path r)
                      then r\<lparr>current_path := dropWhile (\<lambda>x. x \<noteq> n) (current_path r)\<rparr> else r)
      in case dict_get (robots s3) rid of
        None \<Rightarrow> s3
      | Some r3 \<Rightarrow>
          (case (current_job r3, step_index) of
             (Some jid, Some si) \<Rightarrow>
               (case dict_get (jobs s3) jid of
                  Some a \<Rightarrow>
                    if jid \<noteq> [] then
                      update_job s3 a (\<lambda>j. j\<lparr>progress_index := Some si,
                        progress_trace := progress_trace j @ [(si, n, dir r3, now)]\<rparr>)
                    else s3
                | None \<Rightarrow> s3)
           | _ \<Rightarrow> s3))"

text \<open>
  The \<^verbatim>\<open>job_done\<close> branch up to the auto-parking block: mark the robot's current job
  done, make the robot idle, release its reservations.
\<close>

definition finish_job :: "string \<Rightarrow> state \<Rightarrow> state" where
  "finish_job rid s =
     (let s5 = (case dict_get (robots s) rid of
                  None \<Rightarrow> s
                | Some r \<Rightarrow>
                    (case current_job r of
                       Some jid \<Rightarrow>
                         (case dict_get (jobs s) jid of
                            Some a \<Rightarrow>
                              if jid \<noteq> [] then update_job s a (\<lambda>j. j\<lparr>job_status := Done\<rparr>) else s
                          | None \<Rightarrow> s)
                     | None \<Rightarrow> s));
          s6 = update_robot s5 rid (\<lambda>r. r\<lparr>status := Idle, current_path := [], current_job := None\<rparr>)
      in s6\<lparr>reservations := release_owner (reservations s6) rid\<rparr>)"

text \<open>An unknown robot is answered with an error and changes nothing.\<close>

definition update_location ::
  "string \<Rightarrow> cell \<Rightarrow> string option \<Rightarrow> string option \<Rightarrow> string option \<Rightarrow> int option \<Rightarrow>
   string \<Rightarrow> rat \<Rightarrow> int \<Rightarrow> state \<Rightarrow> state \<times> py_error option" where
  "update_location rid n status_in dir_in facing_in step_index uuid now current_t s =
     (case dict_get (robots s) rid of
        None \<Rightarrow> (s, None)
      | Some _ \<Rightarrow>
          let s4 = report_location rid n dir_in facing_in step_index now s in
          if status_in = Some ''job_done'' then
            let s7 = finish_job rid s4 in
            if n \<notin> set PARKING_NODES then auto_park rid n uuid now current_t s7 else (s7, None)
          else (s4, None))"


text \<open>\<^verbatim>\<open>reset_sim\<close>: the two loops run over the job table and the robot table.\<close>

definition reset_sim :: "state \<Rightarrow> state" where
  "reset_sim s =
     (let s1 = s\<lparr>job_queue := [], reservations := Map.empty\<rparr>;
          s2 = fold (\<lambda>a st. if job_status (job_objs st a) = Assigned
                             then update_job st a (\<lambda>j. j\<lparr>job_status := Failed\<rparr>) else st)
                 (map snd (jobs s1)) s1
      in s2\<lparr>robots := map (\<lambda>(rid, r). (rid, r\<lparr>status := Idle, current_path := [],
                                                current_job := None\<rparr>)) (robots s2)\<rparr>)"

section \<open>Notions used to state the planner's result\<close>

text \<open>
  \<open>is_edge\<close>: the graph has a directed edge from the first cell to the second.
  \<open>graph_closed\<close>: every edge of the graph leads to a cell of the graph. \<open>path_ok\<close>:
  every successive pair of cells is a wait or an edge.
\<close>

definition is_edge :: "graph \<Rightarrow> cell \<Rightarrow> cell \<Rightarrow> bool" where
  "is_edge gr a b = (case map_of gr a of None \<Rightarrow> False | Some nbrs \<Rightarrow> b \<in> set (map snd nbrs))"

definition graph_closed :: "graph \<Rightarrow> bool" where
  "graph_closed gr = (\<forall>(n, nbrs) \<in> set gr. \<forall>(d, nb) \<in> set nbrs. nb \<in> set (map fst gr))"

fun path_ok :: "graph \<Rightarrow> cell list \<Rightarrow> bool" where
  "path_ok gr (a # b # rest) = ((a = b \<or> is_edge gr a b) \<and> path_ok gr (b # rest))"
| "path_ok gr _ = True"

text \<open>
  The invariant of the open set: every entry carries a path from the start to its own
  cell made of waits and edges, whose number of steps is at most the entry's cost and
  at most the depth bound.
\<close>

definition good :: "graph \<Rightarrow> cell \<Rightarrow> int \<Rightarrow> entry \<Rightarrow> bool" where
  "good gr start mt e =
     (case e of (f, g, c, p) \<Rightarrow>
        p \<noteq> [] \<and> hd p = start \<and> last p = c \<and> path_ok gr p \<and> int (length p) - 1 \<le> mt \<and>
        of_int (int (length p) - 1) \<le> g \<and>
        (graph_closed gr \<and> start \<in> set (map fst gr) \<longrightarrow> c \<in> set (map fst gr)))"

definition result_ok :: "graph \<Rightarrow> cell \<Rightarrow> cell \<Rightarrow> int \<Rightarrow> py_error + cell list option \<Rightarrow> bool" where
  "result_ok gr start goal mt r =
     (case r of
        Inl e \<Rightarrow> e = KeyError \<and> \<not> (graph_closed gr \<and> start \<in> set (map fst gr))
      | Inr None \<Rightarrow> True
      | Inr (Some p) \<Rightarrow> p \<noteq> [] \<and> hd p = start \<and> last p = goal \<and> path_ok gr p \<and> int (length p) - 1 \<le> mt)"

section \<open>Example states\<close>

text \<open>
  The server starts with empty tables. The store holds no job yet; \<open>no_job\<close> fills the
  addresses that are not allocated.
\<close>

definition no_job :: job where
  "no_job = \<lparr>job_id = [], pickup = [], drop_node = [], submitted_ts = 0, job_status = Queued,
     assigned_robot = None, progress_index = None, path = None, plan = None, plan_str = None,
     progress_trace = [], reports = []\<rparr>"

definition init_state :: state where
  "init_state = \<lparr>robots = [], job_objs = (\<lambda>_. no_job), next_obj = 0, jobs = [], job_queue = [],
     reservations = Map.empty\<rparr>"

text \<open>
  A state in the middle of a plan: robot \<^verbatim>\<open>r1\<close> is busy with job \<^verbatim>\<open>j1\<close> along
  72, 71, 81 from time 100, job \<^verbatim>\<open>j0\<close> is already done and job \<^verbatim>\<open>j2\<close> waits in the
  queue.
\<close>

definition busy_state :: state where
  "busy_state =
     \<lparr>robots = [(''r1'', \<lparr>status = Busy, node = ''72'', last_seen = 99, color = ''#a0a0a0'',
                   current_path = [''72'', ''71'', ''81''], dir = ''w'', current_job = Some ''j1''\<rparr>)],
      job_objs = (\<lambda>_. no_job)
        (0 := no_job\<lparr>job_id := ''j0'', pickup := ''73'', drop_node := ''72'', job_status := Done,
                assigned_robot := Some ''r1''\<rparr>,
         1 := no_job\<lparr>job_id := ''j1'', pickup := ''71'', drop_node := ''81'', job_status := Assigned,
                assigned_robot := Some ''r1'', path := Some [''72'', ''71'', ''81''],
                plan := Some [(''72'', CmdS), (''71'', CmdL), (''81'', CmdD)],
                plan_str := Some ''72 S 71 L 81 D''\<rparr>,
         2 := no_job\<lparr>job_id := ''j2'', pickup := ''73'', drop_node := ''63''\<rparr>),
      next_obj = 3,
      jobs = [(''j0'', 0), (''j1'', 1), (''j2'', 2)],
      job_queue = [2],
      reservations = map_of [((''72'', 100), ''r1''), ((''71'', 101), ''r1''), ((''81'', 102), ''r1'')]\<rparr>"

text \<open>
  Two idle robots and one queued job, reached from the initial state: \<^verbatim>\<open>r1\<close> registers
  at 83, \<^verbatim>\<open>r2\<close> at 81, and the job 71 to 72 is submitted.
\<close>

definition queued_state :: state where
  "queued_state =
     submit_job (Some ''71'') (Some ''72'') ''j1'' 99
       (register_robot (Some ''r2'') (Some ''81'') (Some ''n'') None ''u2'' ''#222222'' 98
          (register_robot (Some ''r1'') (Some ''83'') (Some ''n'') None ''u1'' ''#111111'' 97 init_state))"

text \<open>
  A boxed-in robot: \<^verbatim>\<open>r1\<close> idles at 81, whose only neighbour 71 is taken by the idle
  \<^verbatim>\<open>r2\<close>, and 81 itself is reserved for the next second by \<^verbatim>\<open>r3\<close>, which is on its
  way there. The queued job \<^verbatim>\<open>j1\<close> asks for a transport from 81 to 72.
\<close>

definition blocked_state :: state where
  "blocked_state =
     \<lparr>robots =
        [(''r3'', \<lparr>status = Busy, node = ''72'', last_seen = 99, color = ''#333333'',
                   current_path = [''72'', ''71'', ''81''], dir = ''w'', current_job = Some ''j0''\<rparr>),
         (''r1'', \<lparr>status = Idle, node = ''81'', last_seen = 99, color = ''#111111'',
                   current_path = [], dir = ''s'', current_job = None\<rparr>),
         (''r2'', \<lparr>status = Idle, node = ''71'', last_seen = 99, color = ''#222222'',
                   current_path = [], dir = ''s'', current_job = None\<rparr>)],
      job_objs = (\<lambda>_. no_job)
        (0 := no_job\<lparr>job_id := ''j0'', pickup := ''72'', drop_node := ''81'', job_status := Assigned,
                assigned_robot := Some ''r3'', path := Some [''72'', ''71'', ''81'']\<rparr>,
         1 := no_job\<lparr>job_id := ''j1'', pickup := ''81'', drop_node := ''72''\<rparr>),
      next_obj = 2,
      jobs = [(''j0'', 0), (''j1'', 1)],
      job_queue = [1],
      reservations = map_of [((''71'', 100), ''r3''), ((''81'', 101), ''r3'')]\<rparr>"

text \<open>
  The state \<open>busy_state\<close> with, in addition, an idle robot parked on every parking cell.
\<close>

definition full_parking_state :: state where
  "full_parking_state =
     busy_state\<lparr>robots := robots busy_state @
       map (\<lambda>p. (''p'' @ p, \<lparr>status = Idle, node = p, last_seen = 99, color = ''#000000'',
                             current_path = [], dir = ''s'', current_job = None\<rparr>)) PARKING_NODES\<rparr>"

text \<open>
  A robot that has to wait: \<^verbatim>\<open>r1\<close> idles at 81 heading north while \<^verbatim>\<open>r3\<close>, on its
  way from 72 to 71, holds cell 71 at time 101.
\<close>

definition waiting_state :: state where
  "waiting_state =
     \<lparr>robots =
        [(''r3'', \<lparr>status = Busy, node = ''72'', last_seen = 99, color = ''#333333'',
                   current_path = [''72'', ''71''], dir = ''w'', current_job = Some ''j0''\<rparr>),
         (''r1'', \<lparr>status = Idle, node = ''81'', last_seen = 99, color = ''#111111'',
                   current_path = [], dir = ''n'', current_job = None\<rparr>)],
      job_objs = (\<lambda>_. no_job)
        (0 := no_job\<lparr>job_id := ''j0'', pickup := ''72'', drop_node := ''71'', job_status := Assigned,
                assigned_robot := Some ''r3'', path := Some [''72'', ''71'']\<rparr>),
      next_obj = 1,
      jobs = [(''j0'', 0)],
      job_queue = [],
      reservations = map_of [((''72'', 100), ''r3''), ((''71'', 101), ''r3'')]\<rparr>"

text \<open>
  A run from the initial state. Robot \<^verbatim>\<open>r2\<close> registers at 81, the job 71 to 72 is
  submitted and the allocator runs at time 100: this is \<open>first_plan_state\<close>. Then robot
  \<^verbatim>\<open>r1\<close> registers at 71, the job 71 to 81 is submitted and the allocator runs at time
  101: this is \<open>collision_state\<close>.
\<close>

definition first_plan_state :: state where
  "first_plan_state =
     fst (allocator_tick 100
       (submit_job (Some ''71'') (Some ''72'') ''j1'' 99
          (register_robot (Some ''r2'') (Some ''81'') (Some ''n'') None ''u2'' ''#222222'' 98
             init_state)))"

definition collision_state :: state where
  "collision_state =
     fst (allocator_tick 101
       (submit_job (Some ''71'') (Some ''81'') ''j2'' 100
          (register_robot (Some ''r1'') (Some ''71'') (Some ''s'') None ''u1'' ''#111111'' 100
             first_plan_state)))"

named_theorems state_simps

section \<open>Properties of the dictionary helpers\<close>

lemma map_of_dict_set: "map_of (dict_set d k v) k' = (if k' = k then Some v else map_of d k')"
  by (induction d k v rule: dict_set.induct) auto

lemma map_fst_dict_update: "map fst (dict_update d k f) = map fst d"
  by (induction d k f rule: dict_update.induct) auto

lemma map_of_dict_update:
  "map_of (dict_update d k f) k' = (if k' = k then map_option f (map_of d k) else map_of d k')"
  by (induction d k f rule: dict_update.induct) auto

section \<open>The command translator on a wait step\<close>

lemma no_self_loops: "\<forall>(a, nbrs) \<in> set GRAPH. \<forall>(d, nb) \<in> set nbrs. nb \<noteq> a"
  by code_simp

lemma direction_between_self:
  assumes "a \<in> set (map fst GRAPH)"
  shows "direction_between a a = Inr None"
proof -
  from assms obtain nbrs where m: "map_of GRAPH a = Some nbrs"
    by (metis map_of_eq_None_iff not_Some_eq set_map)
  then have "(a, nbrs) \<in> set GRAPH" by (rule map_of_SomeD)
  with no_self_loops have "\<forall>(d, nb) \<in> set nbrs. nb \<noteq> a" by blast
  then have "find (\<lambda>(d, nb). nb = a) nbrs = None"
    by (auto simp: find_None_iff)
  with m show ?thesis by (simp add: direction_between_def dict_index_def)
qed

text \<open>
  No cell of the map has an edge to itself, so for a wait step \<^verbatim>\<open>direction_between\<close>
  finds no direction and the translator takes its malformed-path branch: it emits
  \<^verbatim>\<open>'U'\<close> and flips the running heading.
\<close>

lemma wait_step_is_uturn:
  "a \<in> set (map fst GRAPH) \<Longrightarrow> instr_step a a h = Inr (CmdU, dict_get_default OPP h h)"
  by (simp add: instr_step_def direction_between_self)

text \<open>
  Claim C3 says that a wait step (the same cell twice) is translated to Straight and
  leaves the running heading unchanged. Asked at time 100 for a path from 81 to 71 while
  71 is reserved at time 101, the planner returns the path 81, 81, 71: wait once, then
  move north. From the initial heading north the translator emits a U-turn for the wait
  and turns the running heading to south, so that the move north becomes a second
  U-turn; the claim requires Straight, Straight.
\<close>

theorem wait_step_translated_as_uturn:
  "space_time_a_star GRAPH waiting_state ''81'' ''71'' 100 ''r1'' MAX_SEARCH_DEPTH
     = Inr (Some [''81'', ''81'', ''71'']) \<and>
   path_to_instr_list [''81'', ''81'', ''71''] ''n'' = Inr ([CmdU, CmdU], ''n'')"
proof -
  have a: "space_time_a_star GRAPH waiting_state ''81'' ''71'' 100 ''r1'' MAX_SEARCH_DEPTH
     = Inr (Some [''81'', ''81'', ''71''])"
    by code_simp
  have b: "path_to_instr_list [''81'', ''81'', ''71''] ''n'' = Inr ([CmdU, CmdU], ''n'')"
    by code_simp
  show ?thesis by (intro conjI) (rule a, rule b)
qed

section \<open>Reset\<close>

lemma reset_jobs_fold:
  "fold (\<lambda>a st. if job_status (job_objs st a) = Assigned
                 then update_job st a (\<lambda>j. j\<lparr>job_status := Failed\<rparr>) else st) as s
   = s\<lparr>job_objs := (\<lambda>a. if a \<in> set as \<and> job_status (job_objs s a) = Assigned
                         then (job_objs s a)\<lparr>job_status := Failed\<rparr> else job_objs s a)\<rparr>"
proof (induction as arbitrary: s)
  case Nil
  then show ?case by simp
next
  case (Cons x xs)
  show ?case
    by (simp add: Cons.IH update_job_def fun_eq_iff)
qed

text \<open>
  Claim C9. After \<^verbatim>\<open>reset_sim\<close>, from any state: the job queue is empty, the
  reservation table is empty, the robot table has the same robots and each of them is
  idle with an empty current path and no current job, the job table is the same, every
  job of the table that was assigned is the same job with status failed, and every
  job in another status is unchanged.
\<close>

theorem reset_sim_post:
  "job_queue (reset_sim s) = [] \<and>
   reservations (reset_sim s) = Map.empty \<and>
   map fst (robots (reset_sim s)) = map fst (robots s) \<and>
   (\<forall>(rid, r) \<in> set (robots (reset_sim s)).
      status r = Idle \<and> current_path r = [] \<and> current_job r = None) \<and>
   jobs (reset_sim s) = jobs s \<and>
   (\<forall>(jid, a) \<in> set (jobs s).
      (job_status (job_objs s a) = Assigned \<longrightarrow>
         job_objs (reset_sim s) a = (job_objs s a)\<lparr>job_status := Failed\<rparr>) \<and>
      (job_status (job_objs s a) \<noteq> Assigned \<longrightarrow> job_objs (reset_sim s) a = job_objs s a))"
  by (auto simp: reset_sim_def reset_jobs_fold Let_def comp_def case_prod_unfold)

theorem reset_sim_post_witness:
  "job_queue busy_state \<noteq> [] \<and> reservations busy_state (''71'', 101) = Some ''r1'' \<and>
   job_queue (reset_sim busy_state) = [] \<and>
   reservations (reset_sim busy_state) = Map.empty \<and>
   robots (reset_sim busy_state) =
     [(''r1'', \<lparr>status = Idle, node = ''72'', last_seen = 99, color = ''#a0a0a0'',
               current_path = [], dir = ''w'', current_job = None\<rparr>)] \<and>
   job_status (job_objs (reset_sim busy_state) 1) = Failed \<and>
   job_objs (reset_sim busy_state) 0 = job_objs busy_state 0 \<and>
   job_objs (reset_sim busy_state) 2 = job_objs busy_state 2"
  using reset_sim_post [of busy_state]
  by (simp add: busy_state_def reset_sim_def update_job_def Let_def no_job_def)

section \<open>Registering a robot that is busy\<close>

text \<open>
  Claim C10. When \<^verbatim>\<open>register_robot\<close> is called with the id of a robot that is busy,
  the robot's record is replaced by a fresh one: idle, no current job, empty current
  path, the node and heading of the request, and the colour of the old record. The job
  table, the job dictionaries (so the job assigned to the robot, its status and its
  \<^verbatim>\<open>assigned_robot\<close>), the queue and the reservation table are untouched.
\<close>

theorem register_busy_robot:
  assumes "dict_get (robots s) rid = Some r" and "status r = Busy" and "rid \<noteq> []"
  shows "dict_get (robots (register_robot (Some rid) node_in dir_in facing_in uuid rnd_color now s)) rid
           = Some \<lparr>status = Idle, node = the (py_or node_in (Some ''81'')), last_seen = now,
                   color = color r, current_path = [],
                   dir = lower (the (py_or (py_or dir_in facing_in) (Some ''s''))),
                   current_job = None\<rparr> \<and>
         jobs (register_robot (Some rid) node_in dir_in facing_in uuid rnd_color now s) = jobs s \<and>
         job_objs (register_robot (Some rid) node_in dir_in facing_in uuid rnd_color now s) = job_objs s \<and>
         job_queue (register_robot (Some rid) node_in dir_in facing_in uuid rnd_color now s) = job_queue s \<and>
         reservations (register_robot (Some rid) node_in dir_in facing_in uuid rnd_color now s) = reservations s"
  using assms
  by (simp add: register_robot_def Let_def py_or_def truthy_def dict_get_def map_of_dict_set)

theorem register_busy_robot_witness:
  "dict_get (robots busy_state) ''r1'' =
     Some \<lparr>status = Busy, node = ''72'', last_seen = 99, color = ''#a0a0a0'',
           current_path = [''72'', ''71'', ''81''], dir = ''w'', current_job = Some ''j1''\<rparr> \<and>
   dict_get (robots (register_robot (Some ''r1'') (Some ''71'') (Some ''e'') None ''u1'' ''#ffffff'' 120
      busy_state)) ''r1''
     = Some \<lparr>status = Idle, node = ''71'', last_seen = 120, color = ''#a0a0a0'',
             current_path = [], dir = ''e'', current_job = None\<rparr> \<and>
   job_status (job_objs (register_robot (Some ''r1'') (Some ''71'') (Some ''e'') None ''u1'' ''#ffffff'' 120
      busy_state) 1) = Assigned \<and>
   assigned_robot (job_objs (register_robot (Some ''r1'') (Some ''71'') (Some ''e'') None ''u1'' ''#ffffff''
      120 busy_state) 1) = Some ''r1'' \<and>
   reservations (register_robot (Some ''r1'') (Some ''71'') (Some ''e'') None ''u1'' ''#ffffff'' 120
      busy_state) (''71'', 101) = Some ''r1''"
  using register_busy_robot [of busy_state "''r1''"
      "\<lparr>status = Busy, node = ''72'', last_seen = 99, color = ''#a0a0a0'',
        current_path = [''72'', ''71'', ''81''], dir = ''w'', current_job = Some ''j1''\<rparr>"
      "Some ''71''" "Some ''e''" None "''u1''" "''#ffffff''" 120]
  by (simp add: busy_state_def dict_get_def py_or_def truthy_def lower_def lower_char_def no_job_def)

section \<open>The allocator\<close>

subsection \<open>Robot selection\<close>

lemma hd_insort_key:
  "hd (insort_key f x ys) = (if ys = [] \<or> f x \<le> f (hd ys) then x else hd ys)"
  by (cases ys) auto

text \<open>The head of a stably sorted list is the first element with the least key.\<close>

lemma hd_sort_key_first_min:
  fixes f :: "'a \<Rightarrow> int"
  assumes "xs \<noteq> []"
  shows "\<exists>i < length xs. hd (sort_key f xs) = xs ! i \<and>
           (\<forall>j < length xs. f (xs ! i) \<le> f (xs ! j)) \<and> (\<forall>j < i. f (xs ! i) < f (xs ! j))"
  using assms
proof (induction xs)
  case Nil
  then show ?case by simp
next
  case (Cons x xs)
  show ?case
  proof (cases "xs = []")
    case True
    then show ?thesis by simp
  next
    case False
    then obtain i where i: "i < length xs" "hd (sort_key f xs) = xs ! i"
      and mn: "\<forall>j < length xs. f (xs ! i) \<le> f (xs ! j)"
      and fst: "\<forall>j < i. f (xs ! i) < f (xs ! j)"
      using Cons.IH by blast
    have ne: "sort_key f xs \<noteq> []" using False by (metis length_0_conv length_sort)
    have hd: "hd (sort_key f (x # xs)) = (if f x \<le> f (xs ! i) then x else xs ! i)"
      using ne i(2) by (simp add: hd_insort_key)
    show ?thesis
    proof (cases "f x \<le> f (xs ! i)")
      case True
      have "\<forall>j < length (x # xs). f ((x # xs) ! 0) \<le> f ((x # xs) ! j)"
      proof (intro allI impI)
        fix j assume "j < length (x # xs)"
        then show "f ((x # xs) ! 0) \<le> f ((x # xs) ! j)"
          using True mn by (cases j) (auto intro: order_trans)
      qed
      then show ?thesis using hd True by (intro exI [of _ 0]) simp
    next
      case F: False
      have a: "\<forall>j < length (x # xs). f ((x # xs) ! Suc i) \<le> f ((x # xs) ! j)"
      proof (intro allI impI)
        fix j assume "j < length (x # xs)"
        then show "f ((x # xs) ! Suc i) \<le> f ((x # xs) ! j)"
          using F mn by (cases j) auto
      qed
      have b: "\<forall>j < Suc i. f ((x # xs) ! Suc i) < f ((x # xs) ! j)"
      proof (intro allI impI)
        fix j assume "j < Suc i"
        then show "f ((x # xs) ! Suc i) < f ((x # xs) ! j)"
          using F fst by (cases j) auto
      qed
      show ?thesis using hd F i(1) a b by (intro exI [of _ "Suc i"]) simp
    qed
  qed
qed

lemma pick_robot_first_min:
  assumes "idle_robots s \<noteq> []"
  shows "\<exists>i < length (idle_robots s).
           pick_robot s pk = idle_robots s ! i \<and>
           (\<forall>j < length (idle_robots s).
              get_manhattan_dist (robot_node s (idle_robots s ! i)) pk
                \<le> get_manhattan_dist (robot_node s (idle_robots s ! j)) pk) \<and>
           (\<forall>j < i.
              get_manhattan_dist (robot_node s (idle_robots s ! i)) pk
                < get_manhattan_dist (robot_node s (idle_robots s ! j)) pk)"
  unfolding pick_robot_def
  by (rule hd_sort_key_first_min [OF assms])

lemma pick_robot_idle:
  assumes "idle_robots s \<noteq> []"
  shows "pick_robot s pk \<in> set (idle_robots s)"
  using pick_robot_first_min [OF assms, of pk] by (metis nth_mem)

lemma idle_robot_known:
  assumes "rid \<in> set (idle_robots s)"
  shows "\<exists>info. dict_index (robots s) rid = Inr info \<and> node info = robot_node s rid"
proof -
  from assms have "rid \<in> set (map fst (robots s))" by (auto simp: idle_robots_def)
  then obtain info where "map_of (robots s) rid = Some info"
    by (metis map_of_eq_None_iff not_Some_eq set_map)
  then show ?thesis by (simp add: dict_index_def robot_node_def dict_get_def)
qed

text \<open>
  The same on the robot table itself: the head of the sorted list of the keys of the
  entries that satisfy a predicate is the key of the first such entry with the least
  sort key.
\<close>

lemma hd_sort_key_filter_first_min:
  fixes F :: "'k \<Rightarrow> int"
  assumes "\<exists>x \<in> set xs. P x"
  shows "\<exists>i < length xs. P (xs ! i) \<and>
           hd (sort_key F (map fst (filter P xs))) = fst (xs ! i) \<and>
           (\<forall>j < length xs. P (xs ! j) \<longrightarrow> F (fst (xs ! i)) \<le> F (fst (xs ! j))) \<and>
           (\<forall>j < i. P (xs ! j) \<longrightarrow> F (fst (xs ! i)) < F (fst (xs ! j)))"
  using assms
proof (induction xs)
  case Nil
  then show ?case by simp
next
  case (Cons x xs)
  show ?case
  proof (cases "\<exists>y \<in> set xs. P y")
    case False
    then have fl: "filter P xs = []" by (auto simp: filter_empty_conv)
    from False Cons.prems have px: "P x" by auto
    have "\<forall>j < length (x # xs). P ((x # xs) ! j) \<longrightarrow> F (fst ((x # xs) ! 0)) \<le> F (fst ((x # xs) ! j))"
    proof (intro allI impI)
      fix j assume "j < length (x # xs)" "P ((x # xs) ! j)"
      then show "F (fst ((x # xs) ! 0)) \<le> F (fst ((x # xs) ! j))"
        using False by (cases j) auto
    qed
    then show ?thesis using px fl by (intro exI [of _ 0]) simp
  next
    case True
    from Cons.IH [OF True] obtain i where i: "i < length xs" "P (xs ! i)"
      and hd: "hd (sort_key F (map fst (filter P xs))) = fst (xs ! i)"
      and mn: "\<forall>j < length xs. P (xs ! j) \<longrightarrow> F (fst (xs ! i)) \<le> F (fst (xs ! j))"
      and fs: "\<forall>j < i. P (xs ! j) \<longrightarrow> F (fst (xs ! i)) < F (fst (xs ! j))"
      by (elim exE conjE)
    have fne: "filter P xs \<noteq> []"
      using True by (simp add: filter_empty_conv)
    have "length (sort_key F (map fst (filter P xs))) = length (filter P xs)"
      by simp
    with fne have ne: "sort_key F (map fst (filter P xs)) \<noteq> []"
      by (metis length_0_conv)
    show ?thesis
    proof (cases "P x \<and> F (fst x) \<le> F (fst (xs ! i))")
      case T: True
      have h0: "hd (sort_key F (map fst (filter P (x # xs)))) = fst x"
        using T ne hd by (simp add: hd_insort_key)
      have "\<forall>j < length (x # xs). P ((x # xs) ! j) \<longrightarrow> F (fst ((x # xs) ! 0)) \<le> F (fst ((x # xs) ! j))"
      proof (intro allI impI)
        fix j assume "j < length (x # xs)" "P ((x # xs) ! j)"
        then show "F (fst ((x # xs) ! 0)) \<le> F (fst ((x # xs) ! j))"
          using T mn by (cases j) (auto intro: order_trans)
      qed
      then show ?thesis using T h0 by (intro exI [of _ 0]) simp
    next
      case F: False
      have h1: "hd (sort_key F (map fst (filter P (x # xs)))) = fst (xs ! i)"
        using F ne hd by (auto simp: hd_insort_key)
      have a: "\<forall>j < length (x # xs). P ((x # xs) ! j) \<longrightarrow>
                 F (fst ((x # xs) ! Suc i)) \<le> F (fst ((x # xs) ! j))"
      proof (intro allI impI)
        fix j assume "j < length (x # xs)" "P ((x # xs) ! j)"
        then show "F (fst ((x # xs) ! Suc i)) \<le> F (fst ((x # xs) ! j))"
          using F mn by (cases j) auto
      qed
      have b: "\<forall>j < Suc i. P ((x # xs) ! j) \<longrightarrow> F (fst ((x # xs) ! Suc i)) < F (fst ((x # xs) ! j))"
      proof (intro allI impI)
        fix j assume "j < Suc i" "P ((x # xs) ! j)"
        then show "F (fst ((x # xs) ! Suc i)) < F (fst ((x # xs) ! j))"
          using F fs by (cases j) auto
      qed
      show ?thesis using h1 i a b by (intro exI [of _ "Suc i"]) simp
    qed
  qed
qed

lemma robot_node_nth:
  assumes "distinct (map fst (robots s))" and "i < length (robots s)"
  shows "robot_node s (fst (robots s ! i)) = node (snd (robots s ! i))"
proof -
  have "(fst (robots s ! i), snd (robots s ! i)) \<in> set (robots s)"
    using assms(2) by (simp add: nth_mem)
  then have "map_of (robots s) (fst (robots s ! i)) = Some (snd (robots s ! i))"
    using assms(1) by (intro map_of_is_SomeI)
  then show ?thesis by (simp add: robot_node_def dict_get_def)
qed

lemma idle_robots_nonempty:
  "idle_robots s \<noteq> [] \<longleftrightarrow> (\<exists>i < length (robots s). status (snd (robots s ! i)) = Idle)"
proof
  assume "idle_robots s \<noteq> []"
  then have "filter (\<lambda>(r, info). status info = Idle) (robots s) \<noteq> []"
    by (simp add: idle_robots_def)
  then obtain x where x: "x \<in> set (robots s)" "(\<lambda>(r, info). status info = Idle) x"
    unfolding filter_empty_conv by blast
  from x(1) obtain i where "i < length (robots s)" "robots s ! i = x"
    unfolding in_set_conv_nth by blast
  with x(2) show "\<exists>i < length (robots s). status (snd (robots s ! i)) = Idle"
    by (intro exI [of _ i]) (simp add: case_prod_unfold)
next
  assume "\<exists>i < length (robots s). status (snd (robots s ! i)) = Idle"
  then obtain i where i: "i < length (robots s)" "status (snd (robots s ! i)) = Idle" by blast
  then have "robots s ! i \<in> set (filter (\<lambda>(r, info). status info = Idle) (robots s))"
    by (simp add: case_prod_unfold)
  then have "filter (\<lambda>(r, info). status info = Idle) (robots s) \<noteq> []"
    by (metis empty_iff empty_set)
  then show "idle_robots s \<noteq> []" by (simp add: idle_robots_def)
qed

lemma pick_robot_table:
  assumes ex: "\<exists>i < length (robots s). status (snd (robots s ! i)) = Idle"
  shows "\<exists>i < length (robots s).
           status (snd (robots s ! i)) = Idle \<and>
           pick_robot s pk = fst (robots s ! i) \<and>
           (\<forall>j < length (robots s). status (snd (robots s ! j)) = Idle \<longrightarrow>
              get_manhattan_dist (robot_node s (fst (robots s ! i))) pk
                \<le> get_manhattan_dist (robot_node s (fst (robots s ! j))) pk) \<and>
           (\<forall>j < i. status (snd (robots s ! j)) = Idle \<longrightarrow>
              get_manhattan_dist (robot_node s (fst (robots s ! i))) pk
                < get_manhattan_dist (robot_node s (fst (robots s ! j))) pk)"
proof -
  let ?P = "\<lambda>x. status (snd x) = Idle"
  let ?F = "\<lambda>rid. get_manhattan_dist (robot_node s rid) pk"
  from ex obtain i0 where i0: "i0 < length (robots s)" "status (snd (robots s ! i0)) = Idle"
    by (elim exE conjE)
  have "robots s ! i0 \<in> set (robots s)" using i0(1) by (rule nth_mem)
  then have "\<exists>x \<in> set (robots s). ?P x" using i0(2) by (rule bexI [rotated])
  from hd_sort_key_filter_first_min [OF this, of ?F]
  have "\<exists>i < length (robots s).
           status (snd (robots s ! i)) = Idle \<and>
           hd (sort_key ?F (map fst (filter ?P (robots s)))) = fst (robots s ! i) \<and>
           (\<forall>j < length (robots s). status (snd (robots s ! j)) = Idle \<longrightarrow>
              ?F (fst (robots s ! i)) \<le> ?F (fst (robots s ! j))) \<and>
           (\<forall>j < i. status (snd (robots s ! j)) = Idle \<longrightarrow>
              ?F (fst (robots s ! i)) < ?F (fst (robots s ! j)))" .
  moreover have "pick_robot s pk = hd (sort_key ?F (map fst (filter ?P (robots s))))"
    by (simp add: pick_robot_def idle_robots_def case_prod_unfold)
  ultimately show ?thesis by simp
qed

lemma robots_nth_lookup:
  assumes "distinct (map fst (robots s))" and "k < length (robots s)"
  shows "dict_get (robots s) (fst (robots s ! k)) = Some (snd (robots s ! k))"
proof -
  have "(fst (robots s ! k), snd (robots s ! k)) \<in> set (robots s)"
    using assms(2) by (simp add: nth_mem)
  then have "map_of (robots s) (fst (robots s ! k)) = Some (snd (robots s ! k))"
    using assms(1) by (intro map_of_is_SomeI)
  then show ?thesis by (simp add: dict_get_def)
qed


subsection \<open>The plan of an assigned job\<close>

lemma instr_loop_length:
  "instr_loop p acc h = Inr (is, h') \<Longrightarrow> length is = length acc + (length p - 1)"
proof (induction p acc h rule: instr_loop.induct)
  case (1 a b rest instrs cur)
  then show ?case by (auto split: sum.splits)
qed auto

lemma path_to_instr_list_length:
  "path_to_instr_list p h = Inr (is, h') \<Longrightarrow> length is = length p - 1"
  by (auto simp: path_to_instr_list_def dest: instr_loop_length)

lemma zip_butlast_done:
  assumes "fp \<noteq> []" and "length is = length fp - 1"
  shows "zip (butlast fp) is @ [(last fp, CmdD)] = zip fp (is @ [CmdD])"
proof -
  have "zip fp (is @ [CmdD]) = zip (butlast fp @ [last fp]) (is @ [CmdD])"
    using assms(1) by simp
  also have "\<dots> = zip (butlast fp) is @ zip [last fp] [CmdD]"
    using assms(2) by (intro zip_append) simp
  finally show ?thesis by simp
qed

text \<open>
  What the loop body did when it turned a job that was not assigned into an assigned
  one: both legs were found, both were translated, and the job dictionary was written.
\<close>

lemma allocate_job_assigned:
  assumes run: "allocate_job t a s = (s', e)"
    and before: "job_status (job_objs s a) \<noteq> Assigned"
    and after: "job_status (job_objs s' a) = Assigned"
  shows "\<exists>info path1 path2 instr1 instr2 h1 h2.
           dict_index (robots s) (pick_robot s (pickup (job_objs s a))) = Inr info \<and>
           space_time_a_star GRAPH s (node info) (pickup (job_objs s a)) t
              (pick_robot s (pickup (job_objs s a))) MAX_SEARCH_DEPTH = Inr (Some path1) \<and>
           path1 \<noteq> [] \<and>
           space_time_a_star GRAPH s (pickup (job_objs s a)) (drop_node (job_objs s a))
              (t + int (length path1) - 1) (pick_robot s (pickup (job_objs s a))) MAX_SEARCH_DEPTH
              = Inr (Some path2) \<and>
           path2 \<noteq> [] \<and>
           path_to_instr_list path1 (dir info) = Inr (instr1, h1) \<and>
           path_to_instr_list path2 h1 = Inr (instr2, h2) \<and>
           job_objs s' a = (job_objs s a)\<lparr>assigned_robot := Some (pick_robot s (pickup (job_objs s a))),
              job_status := Assigned, path := Some (path1 @ drop 1 path2),
              plan := Some (allocator_plan (path1 @ drop 1 path2) (instr1 @ instr2)),
              plan_str := Some (plan_to_str (allocator_plan (path1 @ drop 1 path2) (instr1 @ instr2))),
              progress_index := None\<rparr>"
  using run before after
  unfolding allocate_job_def Let_def
  by (auto split: sum.splits option.splits if_splits prod.splits
           simp: update_job_def update_robot_def reserve_path_trajectory_def)

text \<open>
  Claim C2. Whenever the loop body of the allocator assigns a job, there are the two
  legs \<open>path1\<close> and \<open>path2\<close> found by the planner and their translations \<open>instr1\<close>
  and \<open>instr2\<close>, the second translated from the heading the first ends with, such
  that the job's path is \<open>path1\<close> followed by \<open>path2\<close> without its first cell, the
  command list \<open>instr1 @ instr2\<close> has one command less than the path has cells, and the
  plan pairs the path, cell by cell, with these commands followed by \<^verbatim>\<open>'D'\<close>: it has as
  many entries as the path has cells.
\<close>

theorem allocator_plan_shape:
  assumes run: "allocate_job t a s = (s', e)"
    and before: "job_status (job_objs s a) \<noteq> Assigned"
    and after: "job_status (job_objs s' a) = Assigned"
  shows "\<exists>info path1 path2 instr1 instr2 h1 h2.
           dict_index (robots s) (pick_robot s (pickup (job_objs s a))) = Inr info \<and>
           space_time_a_star GRAPH s (node info) (pickup (job_objs s a)) t
              (pick_robot s (pickup (job_objs s a))) MAX_SEARCH_DEPTH = Inr (Some path1) \<and>
           space_time_a_star GRAPH s (pickup (job_objs s a)) (drop_node (job_objs s a))
              (t + int (length path1) - 1) (pick_robot s (pickup (job_objs s a))) MAX_SEARCH_DEPTH
              = Inr (Some path2) \<and>
           path_to_instr_list path1 (dir info) = Inr (instr1, h1) \<and>
           path_to_instr_list path2 h1 = Inr (instr2, h2) \<and>
           path (job_objs s' a) = Some (path1 @ drop 1 path2) \<and>
           length (instr1 @ instr2) = length (path1 @ drop 1 path2) - 1 \<and>
           plan (job_objs s' a) = Some (zip (path1 @ drop 1 path2) (instr1 @ instr2 @ [CmdD])) \<and>
           length (zip (path1 @ drop 1 path2) (instr1 @ instr2 @ [CmdD]))
             = length (path1 @ drop 1 path2)"
proof -
  from allocate_job_assigned [OF run before after]
  obtain info path1 path2 instr1 instr2 h1 h2 where
    info: "dict_index (robots s) (pick_robot s (pickup (job_objs s a))) = Inr info"
    and leg1: "space_time_a_star GRAPH s (node info) (pickup (job_objs s a)) t
              (pick_robot s (pickup (job_objs s a))) MAX_SEARCH_DEPTH = Inr (Some path1)"
    and ne1: "path1 \<noteq> []"
    and leg2: "space_time_a_star GRAPH s (pickup (job_objs s a)) (drop_node (job_objs s a))
              (t + int (length path1) - 1) (pick_robot s (pickup (job_objs s a))) MAX_SEARCH_DEPTH
              = Inr (Some path2)"
    and ne2: "path2 \<noteq> []"
    and i1: "path_to_instr_list path1 (dir info) = Inr (instr1, h1)"
    and i2: "path_to_instr_list path2 h1 = Inr (instr2, h2)"
    and job: "job_objs s' a = (job_objs s a)\<lparr>assigned_robot := Some (pick_robot s (pickup (job_objs s a))),
              job_status := Assigned, path := Some (path1 @ drop 1 path2),
              plan := Some (allocator_plan (path1 @ drop 1 path2) (instr1 @ instr2)),
              plan_str := Some (plan_to_str (allocator_plan (path1 @ drop 1 path2) (instr1 @ instr2))),
              progress_index := None\<rparr>"
    by (elim exE conjE)
  let ?fp = "path1 @ drop 1 path2"
  have l1: "length instr1 = length path1 - 1" by (rule path_to_instr_list_length [OF i1])
  have l2: "length instr2 = length path2 - 1" by (rule path_to_instr_list_length [OF i2])
  have p1: "1 \<le> length path1" using ne1 by (cases path1) simp_all
  have lfp: "length ?fp = length path1 + (length path2 - 1)" by simp
  have "length ?fp - 1 = (length path1 - 1) + (length path2 - 1)"
    unfolding lfp using p1 by linarith
  moreover have "length (instr1 @ instr2) = (length path1 - 1) + (length path2 - 1)"
    by (simp only: length_append l1 l2)
  ultimately have len: "length (instr1 @ instr2) = length ?fp - 1" by (simp only:)
  have fp: "?fp \<noteq> []" using ne1 by simp
  have "1 \<le> length ?fp" unfolding lfp using p1 by linarith
  then have "int (length ?fp) - 1 = int (length ?fp - 1)" by (simp only: of_nat_diff of_nat_1)
  then have c: "int (length ?fp) - 1 = int (length (instr1 @ instr2))" by (simp only: len)
  have "allocator_plan ?fp (instr1 @ instr2) = zip (butlast ?fp) (instr1 @ instr2) @ [(last ?fp, CmdD)]"
    by (simp only: allocator_plan_def c refl if_True)
  also have "\<dots> = zip ?fp ((instr1 @ instr2) @ [CmdD])"
    by (rule zip_butlast_done [OF fp len])
  finally have ap: "allocator_plan ?fp (instr1 @ instr2) = zip ?fp (instr1 @ instr2 @ [CmdD])"
    by (simp only: append_assoc)
  have "plan (job_objs s' a) = Some (allocator_plan ?fp (instr1 @ instr2))"
    unfolding job by simp
  then have pl: "plan (job_objs s' a) = Some (zip ?fp (instr1 @ instr2 @ [CmdD]))"
    by (simp only: ap)
  have pa: "path (job_objs s' a) = Some ?fp" unfolding job by simp
  have "length (instr1 @ instr2 @ [CmdD]) = length ?fp"
    using len \<open>1 \<le> length ?fp\<close> by (simp only: length_append list.size)
  then have ln: "length (zip ?fp (instr1 @ instr2 @ [CmdD])) = length ?fp"
    by (simp only: length_zip min.idem)
  show ?thesis
    apply (rule exI [where x = info], rule exI [where x = path1], rule exI [where x = path2])
    apply (rule exI [where x = instr1], rule exI [where x = instr2])
    apply (rule exI [where x = h1], rule exI [where x = h2])
    apply (intro conjI)
            apply (rule info, rule leg1, rule leg2, rule i1, rule i2, rule pa, rule len, rule pl, rule ln)
    done
qed

theorem allocator_plan_shape_witness:
  "job_status (job_objs queued_state 0) = Queued \<and>
   job_status (job_objs (fst (allocate_job 100 0 queued_state)) 0) = Assigned \<and>
   path (job_objs (fst (allocate_job 100 0 queued_state)) 0) = Some [''81'', ''71'', ''72''] \<and>
   plan (job_objs (fst (allocate_job 100 0 queued_state)) 0)
     = Some [(''81'', CmdS), (''71'', CmdR), (''72'', CmdD)] \<and>
   (\<exists>path1 path2 instr1 instr2.
      path (job_objs (fst (allocate_job 100 0 queued_state)) 0) = Some (path1 @ drop 1 path2) \<and>
      length (instr1 @ instr2) = length (path1 @ drop 1 path2) - 1 \<and>
      plan (job_objs (fst (allocate_job 100 0 queued_state)) 0)
        = Some (zip (path1 @ drop 1 path2) (instr1 @ instr2 @ [CmdD])))"
proof -
  have b: "job_status (job_objs queued_state 0) = Queued" by code_simp
  have j: "job_objs (fst (allocate_job 100 0 queued_state)) 0 =
     \<lparr>job_id = ''j1'', pickup = ''71'', drop_node = ''72'', submitted_ts = 99,
      job_status = Assigned, assigned_robot = Some ''r2'', progress_index = None,
      path = Some [''81'', ''71'', ''72''],
      plan = Some [(''81'', CmdS), (''71'', CmdR), (''72'', CmdD)],
      plan_str = Some ''81 S 71 R 72 D'', progress_trace = [], reports = []\<rparr>"
    by code_simp
  have a: "job_status (job_objs (fst (allocate_job 100 0 queued_state)) 0) = Assigned"
    by (simp add: j)
  have p: "path (job_objs (fst (allocate_job 100 0 queued_state)) 0) = Some [''81'', ''71'', ''72'']"
    by (simp add: j)
  have q: "plan (job_objs (fst (allocate_job 100 0 queued_state)) 0)
     = Some [(''81'', CmdS), (''71'', CmdR), (''72'', CmdD)]" by (simp add: j)
  have r: "allocate_job 100 0 queued_state
     = (fst (allocate_job 100 0 queued_state), snd (allocate_job 100 0 queued_state))"
    by (rule prod.collapse [symmetric])
  have nb: "job_status (job_objs queued_state 0) \<noteq> Assigned" by (simp only: b) simp
  from allocator_plan_shape [OF r nb a] obtain info path1 path2 instr1 instr2 h1 h2 where
    pa: "path (job_objs (fst (allocate_job 100 0 queued_state)) 0) = Some (path1 @ drop 1 path2)"
    and len: "length (instr1 @ instr2) = length (path1 @ drop 1 path2) - 1"
    and pl: "plan (job_objs (fst (allocate_job 100 0 queued_state)) 0)
        = Some (zip (path1 @ drop 1 path2) (instr1 @ instr2 @ [CmdD]))"
    by (elim exE conjE)
  have ex: "\<exists>path1 path2 instr1 instr2.
      path (job_objs (fst (allocate_job 100 0 queued_state)) 0) = Some (path1 @ drop 1 path2) \<and>
      length (instr1 @ instr2) = length (path1 @ drop 1 path2) - 1 \<and>
      plan (job_objs (fst (allocate_job 100 0 queued_state)) 0)
        = Some (zip (path1 @ drop 1 path2) (instr1 @ instr2 @ [CmdD]))"
    apply (rule exI [where x = path1], rule exI [where x = path2])
    apply (rule exI [where x = instr1], rule exI [where x = instr2])
    apply (intro conjI)
      apply (rule pa, rule len, rule pl)
    done
  show ?thesis
    apply (intro conjI)
        apply (rule b, rule a, rule p, rule q, rule ex)
    done
qed

text \<open>
  Claim C5. When the allocator serves a queued job while some robot of the robot table is
  idle, the robot it picks for the job's pickup cell is an entry of the robot table whose
  status is idle, its Manhattan distance from the pickup cell is the least among the idle
  entries, and every idle entry that comes before it in the robot table is strictly farther
  away; robots that are not idle do not count, however near they are. When the keys of
  the table are distinct, as those of a dictionary are, looking up the key of an entry
  gives that entry, so that the distances are those of the cells of the entries. The
  same holds on the list of idle robots that the loop body builds, and a job that the
  loop body assigns is assigned to the picked robot.
\<close>

theorem allocator_picks_nearest_idle_robot:
  assumes "\<exists>i < length (robots s). status (snd (robots s ! i)) = Idle"
  shows "(\<exists>i < length (robots s).
           status (snd (robots s ! i)) = Idle \<and>
           pick_robot s pk = fst (robots s ! i) \<and>
           (\<forall>j < length (robots s). status (snd (robots s ! j)) = Idle \<longrightarrow>
              get_manhattan_dist (robot_node s (fst (robots s ! i))) pk
                \<le> get_manhattan_dist (robot_node s (fst (robots s ! j))) pk) \<and>
           (\<forall>j < i. status (snd (robots s ! j)) = Idle \<longrightarrow>
              get_manhattan_dist (robot_node s (fst (robots s ! i))) pk
                < get_manhattan_dist (robot_node s (fst (robots s ! j))) pk)) \<and>
         (distinct (map fst (robots s)) \<longrightarrow>
            (\<forall>k < length (robots s).
               dict_get (robots s) (fst (robots s ! k)) = Some (snd (robots s ! k)) \<and>
               robot_node s (fst (robots s ! k)) = node (snd (robots s ! k)))) \<and>
         (\<exists>i < length (idle_robots s).
           pick_robot s pk = idle_robots s ! i \<and>
           (\<forall>j < length (idle_robots s).
              get_manhattan_dist (robot_node s (idle_robots s ! i)) pk
                \<le> get_manhattan_dist (robot_node s (idle_robots s ! j)) pk) \<and>
           (\<forall>j < i.
              get_manhattan_dist (robot_node s (idle_robots s ! i)) pk
                < get_manhattan_dist (robot_node s (idle_robots s ! j)) pk)) \<and>
         (\<forall>t a s' e.
            allocate_job t a s = (s', e) \<and> job_status (job_objs s a) \<noteq> Assigned \<and>
            job_status (job_objs s' a) = Assigned \<longrightarrow>
            assigned_robot (job_objs s' a) = Some (pick_robot s (pickup (job_objs s a))))"
proof (intro conjI allI impI)
  show "\<exists>i < length (robots s).
           status (snd (robots s ! i)) = Idle \<and>
           pick_robot s pk = fst (robots s ! i) \<and>
           (\<forall>j < length (robots s). status (snd (robots s ! j)) = Idle \<longrightarrow>
              get_manhattan_dist (robot_node s (fst (robots s ! i))) pk
                \<le> get_manhattan_dist (robot_node s (fst (robots s ! j))) pk) \<and>
           (\<forall>j < i. status (snd (robots s ! j)) = Idle \<longrightarrow>
              get_manhattan_dist (robot_node s (fst (robots s ! i))) pk
                < get_manhattan_dist (robot_node s (fst (robots s ! j))) pk)"
    by (rule pick_robot_table [OF assms])
next
  fix k assume "distinct (map fst (robots s))" "k < length (robots s)"
  then show "dict_get (robots s) (fst (robots s ! k)) = Some (snd (robots s ! k))"
    by (rule robots_nth_lookup)
next
  fix k assume "distinct (map fst (robots s))" "k < length (robots s)"
  then show "robot_node s (fst (robots s ! k)) = node (snd (robots s ! k))"
    by (rule robot_node_nth)
next
  have ne: "idle_robots s \<noteq> []" using assms by (simp add: idle_robots_nonempty)
  show "\<exists>i < length (idle_robots s).
           pick_robot s pk = idle_robots s ! i \<and>
           (\<forall>j < length (idle_robots s).
              get_manhattan_dist (robot_node s (idle_robots s ! i)) pk
                \<le> get_manhattan_dist (robot_node s (idle_robots s ! j)) pk) \<and>
           (\<forall>j < i.
              get_manhattan_dist (robot_node s (idle_robots s ! i)) pk
                < get_manhattan_dist (robot_node s (idle_robots s ! j)) pk)"
    by (rule pick_robot_first_min [OF ne])
next
  fix t a s' e
  assume h: "allocate_job t a s = (s', e) \<and> job_status (job_objs s a) \<noteq> Assigned \<and>
            job_status (job_objs s' a) = Assigned"
  then have "allocate_job t a s = (s', e)" "job_status (job_objs s a) \<noteq> Assigned"
    "job_status (job_objs s' a) = Assigned" by simp_all
  from allocate_job_assigned [OF this] obtain info path1 path2 instr1 instr2 h1 h2 where
    job: "job_objs s' a = (job_objs s a)\<lparr>assigned_robot := Some (pick_robot s (pickup (job_objs s a))),
              job_status := Assigned, path := Some (path1 @ drop 1 path2),
              plan := Some (allocator_plan (path1 @ drop 1 path2) (instr1 @ instr2)),
              plan_str := Some (plan_to_str (allocator_plan (path1 @ drop 1 path2) (instr1 @ instr2))),
              progress_index := None\<rparr>"
    by (elim exE conjE)
  show "assigned_robot (job_objs s' a) = Some (pick_robot s (pickup (job_objs s a)))"
    unfolding job by simp
qed

theorem allocator_picks_nearest_idle_robot_witness:
  "idle_robots queued_state = [''r1'', ''r2''] \<and>
   get_manhattan_dist (robot_node queued_state ''r1'') ''71'' = 3 \<and>
   get_manhattan_dist (robot_node queued_state ''r2'') ''71'' = 1 \<and>
   pick_robot queued_state ''71'' = ''r2'' \<and>
   get_manhattan_dist (robot_node queued_state ''r1'') ''72'' = 2 \<and>
   get_manhattan_dist (robot_node queued_state ''r2'') ''72'' = 2 \<and>
   pick_robot queued_state ''72'' = ''r1'' \<and>
   map (\<lambda>(rid, info). (rid, status info, get_manhattan_dist (node info) ''72'')) (robots blocked_state)
     = [(''r3'', Busy, 0), (''r1'', Idle, 2), (''r2'', Idle, 1)] \<and>
   pick_robot blocked_state ''72'' = ''r2'' \<and>
   (\<exists>i. i < length (robots blocked_state) \<and>
      status (snd (robots blocked_state ! i)) = Idle \<and>
      pick_robot blocked_state ''72'' = fst (robots blocked_state ! i))"
proof -
  have i: "idle_robots queued_state = [''r1'', ''r2'']" by code_simp
  have d1: "get_manhattan_dist (robot_node queued_state ''r1'') ''71'' = 3" by code_simp
  have d2: "get_manhattan_dist (robot_node queued_state ''r2'') ''71'' = 1" by code_simp
  have p1: "pick_robot queued_state ''71'' = ''r2''" by code_simp
  have d3: "get_manhattan_dist (robot_node queued_state ''r1'') ''72'' = 2" by code_simp
  have d4: "get_manhattan_dist (robot_node queued_state ''r2'') ''72'' = 2" by code_simp
  have p2: "pick_robot queued_state ''72'' = ''r1''" by code_simp
  have tb: "map (\<lambda>(rid, info). (rid, status info, get_manhattan_dist (node info) ''72''))
              (robots blocked_state)
            = [(''r3'', Busy, 0), (''r1'', Idle, 2), (''r2'', Idle, 1)]" by code_simp
  have p3: "pick_robot blocked_state ''72'' = ''r2''" by code_simp
  have l: "Suc 0 < length (robots blocked_state)" by code_simp
  have st: "status (snd (robots blocked_state ! Suc 0)) = Idle" by code_simp
  have ne: "\<exists>i < length (robots blocked_state). status (snd (robots blocked_state ! i)) = Idle"
    by (rule exI [where x = "Suc 0"], intro conjI) (rule l, rule st)
  from allocator_picks_nearest_idle_robot [OF ne, of "''72''"]
  obtain k where k: "k < length (robots blocked_state)"
    "status (snd (robots blocked_state ! k)) = Idle"
    "pick_robot blocked_state ''72'' = fst (robots blocked_state ! k)"
    by (elim conjE exE)
  have ex: "\<exists>i. i < length (robots blocked_state) \<and>
      status (snd (robots blocked_state ! i)) = Idle \<and>
      pick_robot blocked_state ''72'' = fst (robots blocked_state ! i)"
    by (rule exI [where x = k], intro conjI) (rule k)+
  show ?thesis
    apply (intro conjI)
    apply (rule i, rule d1, rule d2, rule p1, rule d3, rule d4, rule p2, rule tb, rule p3, rule ex)
    done
qed

subsection \<open>A job that cannot be planned\<close>

text \<open>
  Claim C6. When the planner returns no path for the first leg, or a path for the
  first leg and none for the second, the loop body leaves the state as it is (so the
  job keeps its place in the queue and its status, and no reservation is written) and
  the allocator goes on with the next pending job.
\<close>

theorem no_path_keeps_job_queued:
  assumes idle: "idle_robots s \<noteq> []"
    and rid: "rid = pick_robot s (pickup (job_objs s a))"
    and nopath:
      "space_time_a_star GRAPH s (robot_node s rid) (pickup (job_objs s a)) t rid MAX_SEARCH_DEPTH
         = Inr None \<or>
       (\<exists>path1.
          space_time_a_star GRAPH s (robot_node s rid) (pickup (job_objs s a)) t rid MAX_SEARCH_DEPTH
            = Inr (Some path1) \<and>
          space_time_a_star GRAPH s (pickup (job_objs s a)) (drop_node (job_objs s a))
            (t + int (length path1) - 1) rid MAX_SEARCH_DEPTH = Inr None)"
  shows "allocate_job t a s = (s, None) \<and>
         allocate_pending t (a # as) s = allocate_pending t as s"
proof -
  from pick_robot_idle [OF idle] rid have "rid \<in> set (idle_robots s)" by simp
  from idle_robot_known [OF this] obtain info where
    info: "dict_index (robots s) rid = Inr info" "node info = robot_node s rid" by blast
  have "allocate_job t a s = (s, None)"
    using nopath info rid by (auto simp: allocate_job_def Let_def)
  then show ?thesis using idle by simp
qed

theorem no_path_keeps_job_queued_witness:
  "idle_robots blocked_state = [''r1'', ''r2''] \<and>
   job_queue blocked_state = [1] \<and>
   job_status (job_objs blocked_state 1) = Queued \<and>
   pick_robot blocked_state (pickup (job_objs blocked_state 1)) = ''r1'' \<and>
   space_time_a_star GRAPH blocked_state ''81'' ''81'' 100 ''r1'' MAX_SEARCH_DEPTH = Inr (Some [''81'']) \<and>
   space_time_a_star GRAPH blocked_state ''81'' ''72'' 100 ''r1'' MAX_SEARCH_DEPTH = Inr None \<and>
   allocate_job 100 1 blocked_state = (blocked_state, None) \<and>
   allocator_tick 100 blocked_state = (blocked_state, None)"
proof -
  have idle: "idle_robots blocked_state = [''r1'', ''r2'']" by code_simp
  have q: "job_queue blocked_state = [1]" by (simp add: blocked_state_def)
  have st: "job_status (job_objs blocked_state 1) = Queued"
    by (simp add: blocked_state_def no_job_def)
  have pk: "pickup (job_objs blocked_state 1) = ''81''" by (simp add: blocked_state_def)
  have dr: "drop_node (job_objs blocked_state 1) = ''72''" by (simp add: blocked_state_def)
  have pick: "pick_robot blocked_state ''81'' = ''r1''" by code_simp
  have rn: "robot_node blocked_state ''r1'' = ''81''" by code_simp
  have leg1: "space_time_a_star GRAPH blocked_state ''81'' ''81'' 100 ''r1'' MAX_SEARCH_DEPTH
                = Inr (Some [''81''])"
    by code_simp
  have leg2: "space_time_a_star GRAPH blocked_state ''81'' ''72'' 100 ''r1'' MAX_SEARCH_DEPTH = Inr None"
    by code_simp
  have h1: "idle_robots blocked_state \<noteq> []" by (simp only: idle) simp
  have h2: "''r1'' = pick_robot blocked_state (pickup (job_objs blocked_state 1))"
    by (simp only: pk pick)
  have h3: "space_time_a_star GRAPH blocked_state (robot_node blocked_state ''r1'')
         (pickup (job_objs blocked_state 1)) 100 ''r1'' MAX_SEARCH_DEPTH = Inr None \<or>
       (\<exists>path1.
          space_time_a_star GRAPH blocked_state (robot_node blocked_state ''r1'')
            (pickup (job_objs blocked_state 1)) 100 ''r1'' MAX_SEARCH_DEPTH = Inr (Some path1) \<and>
          space_time_a_star GRAPH blocked_state (pickup (job_objs blocked_state 1))
            (drop_node (job_objs blocked_state 1))
            (100 + int (length path1) - 1) ''r1'' MAX_SEARCH_DEPTH = Inr None)"
    by (rule disjI2, rule exI [where x = "[''81'']"]) (simp only: rn pk dr, simp add: leg1 leg2)
  note a = no_path_keeps_job_queued [OF h1 h2 h3, of "[]"]
  have a1: "allocate_job 100 1 blocked_state = (blocked_state, None)" using a by (rule conjunct1)
  have gc: "blocked_state\<lparr>reservations :=
              (\<lambda>k. if snd k < 100 then None else reservations blocked_state k)\<rparr> = blocked_state"
    by (auto simp: blocked_state_def fun_eq_iff)
  have pend: "filter (\<lambda>a. job_status (job_objs blocked_state a) = Queued) (job_queue blocked_state) = [1]"
    by (simp only: q st filter.simps refl if_True)
  have "allocate_pending 100 [1] blocked_state = (blocked_state, None)"
    by (simp only: allocate_pending.simps a1 h1 if_False prod.case option.case)
  then have tick: "allocator_tick 100 blocked_state = (blocked_state, None)"
    by (simp only: allocator_tick_def Let_def gc pend)
  have pk2: "pick_robot blocked_state (pickup (job_objs blocked_state 1)) = ''r1''"
    by (simp only: pk pick)
  show ?thesis
    apply (intro conjI)
    apply (rule idle, rule q, rule st, rule pk2, rule leg1, rule leg2, rule a1, rule tick)
    done
qed

section \<open>The space-time planner\<close>

lemma path_ok_append:
  "path_ok gr p \<Longrightarrow> p \<noteq> [] \<Longrightarrow> last p = b \<or> is_edge gr (last p) b \<Longrightarrow> path_ok gr (p @ [b])"
  by (induction gr p rule: path_ok.induct) auto


lemma good_child:
  assumes par: "good gr start mt (f, g, c, p)"
    and lt: "g < of_int mt"
    and idx: "dict_index gr c = Inr nbrs"
    and nb: "nb = c \<or> nb \<in> set (map snd nbrs)"
    and ng: "g + 1 \<le> ng"
  shows "good gr start mt (f', ng, nb, p @ [nb])"
proof -
  from par have p: "p \<noteq> []" "hd p = start" "last p = c" "path_ok gr p"
    and len: "of_int (int (length p) - 1) \<le> g"
    and keys: "graph_closed gr \<and> start \<in> set (map fst gr) \<longrightarrow> c \<in> set (map fst gr)"
    by (auto simp: good_def)
  from idx have m: "map_of gr c = Some nbrs"
    by (simp add: dict_index_def split: option.splits)
  have e: "nb = c \<or> is_edge gr c nb" using nb m by (auto simp: is_edge_def)
  have ok: "path_ok gr (p @ [nb])"
    using p e by (intro path_ok_append) auto
  have "(of_int (int (length p) - 1) :: rat) < of_int mt" using len lt by (rule le_less_trans)
  then have l1: "int (length p) - 1 < mt" by (simp only: of_int_less_iff)
  have l2: "of_int (int (length (p @ [nb])) - 1) \<le> ng" using len ng by simp
  have k: "graph_closed gr \<and> start \<in> set (map fst gr) \<longrightarrow> nb \<in> set (map fst gr)"
  proof
    assume a: "graph_closed gr \<and> start \<in> set (map fst gr)"
    from m have "(c, nbrs) \<in> set gr" by (rule map_of_SomeD)
    with a nb keys show "nb \<in> set (map fst gr)"
      by (fastforce simp: graph_closed_def)
  qed
  show ?thesis using p ok l1 l2 k by (simp add: good_def)
qed

lemma expand_good:
  assumes "\<forall>e \<in> set h. good gr start mt e"
    and "good gr start mt (f, g, c, p)"
    and "g < of_int mt"
    and "dict_index gr c = Inr nbrs"
    and "set nbs \<subseteq> insert c (set (map snd nbrs))"
  shows "\<forall>e \<in> set (fst (expand s goal rid ct g c p nbs (h, vis))). good gr start mt e"
  using assms(1,5)
proof (induction nbs arbitrary: h vis)
  case Nil
  then show ?case by simp
next
  case (Cons nb nbs)
  let ?ng = "if nb = c then g + 1 + 11 / 10 else g + 1"
  let ?e = "(?ng + of_int (get_manhattan_dist nb goal), ?ng, nb, p @ [nb])"
  have nb: "nb = c \<or> nb \<in> set (map snd nbrs)" using Cons.prems(2) by auto
  have ge: "good gr start mt ?e"
    by (rule good_child [OF assms(2,3,4) nb]) simp
  have rest: "set nbs \<subseteq> insert c (set (map snd nbrs))" using Cons.prems(2) by auto
  have a: "\<forall>e \<in> set (fst (expand s goal rid ct g c p nbs (h, vis))). good gr start mt e"
    by (rule Cons.IH [OF Cons.prems(1) rest])
  have "\<forall>e \<in> set (heappush h ?e). good gr start mt e"
    using Cons.prems(1) ge by (simp add: heappush_def)
  then have b: "\<forall>e \<in> set (fst (expand s goal rid ct g c p nbs
                    (heappush h ?e, insert (nb, ct + 1) vis))). good gr start mt e"
    by (rule Cons.IH [OF _ rest])
  show ?case using a b by (simp add: Let_def)
qed

lemma heappop_set:
  assumes "h \<noteq> []" and "heappop h = (m, rest)"
  shows "m \<in> set h" and "set rest \<subseteq> set h"
proof -
  have m: "m = Min (set h)" and rest: "rest = remove1 m h"
    using assms(2) by (auto simp: heappop_def Let_def)
  show "m \<in> set h" unfolding m using assms(1) by (intro Min_in) auto
  show "set rest \<subseteq> set h" unfolding rest by (rule set_remove1_subset)
qed

lemma a_star_loop_ok:
  "\<forall>e \<in> set open_set. good gr start mt e \<Longrightarrow>
   result_ok gr start goal mt (a_star_loop gr s goal t0 rid mt open_set visited)"
proof (induction gr s goal t0 rid mt open_set visited rule: a_star_loop.induct)
  case (1 gr s goal t0 rid mt open_set visited)
  show ?case
  proof (cases "open_set = []")
    case True
    then show ?thesis by (subst a_star_loop.simps) (simp add: result_ok_def)
  next
    case ne: False
    obtain f g c p rest where pop: "heappop open_set = ((f, g, c, p), rest)"
      by (metis prod_cases4 surj_pair)
    from heappop_set [OF ne pop] "1.prems"
    have gm: "good gr start mt (f, g, c, p)" and gr: "\<forall>e \<in> set rest. good gr start mt e"
      by auto
    show ?thesis
    proof (cases "c = goal")
      case True
      then show ?thesis using gm ne pop
        by (subst a_star_loop.simps) (simp add: result_ok_def good_def)
    next
      case ng: False
      show ?thesis
      proof (cases "of_int mt \<le> g")
        case True
        have "result_ok gr start goal mt (a_star_loop gr s goal t0 rid mt rest visited)"
          using "1.IH"(1) [OF ne pop [symmetric] refl refl refl ng True gr] .
        then show ?thesis using ne pop ng True
          by (subst a_star_loop.simps) simp
      next
        case lt: False
        show ?thesis
        proof (cases "dict_index gr c")
          case (Inl e)
          then have "e = KeyError" "c \<notin> set (map fst gr)"
            by (auto simp: dict_index_def map_of_eq_None_iff split: option.splits)
          moreover have "graph_closed gr \<and> start \<in> set (map fst gr) \<longrightarrow> c \<in> set (map fst gr)"
            using gm by (simp add: good_def)
          ultimately show ?thesis using ne pop ng lt Inl
            by (subst a_star_loop.simps) (auto simp: result_ok_def)
        next
          case (Inr nbrs)
          obtain o' v' where ex: "expand s goal rid (of_int t0 + g) g c p (map snd nbrs @ [c]) (rest, visited) = (o', v')"
            by (cases "expand s goal rid (of_int t0 + g) g c p (map snd nbrs @ [c]) (rest, visited)")
          have "\<forall>e \<in> set (fst (expand s goal rid (of_int t0 + g) g c p (map snd nbrs @ [c]) (rest, visited))). good gr start mt e"
            using lt by (intro expand_good [OF gr gm _ Inr]) auto
          then have go: "\<forall>e \<in> set o'. good gr start mt e" by (simp add: ex)
          have "result_ok gr start goal mt (a_star_loop gr s goal t0 rid mt o' v')"
            using "1.IH"(2) [OF ne pop [symmetric] refl refl refl ng lt Inr ex [symmetric] go] .
          then show ?thesis using ne pop ng lt Inr ex
            by (subst a_star_loop.simps) simp
        qed
      qed
    qed
  qed
qed


lemma space_time_a_star_ok:
  assumes "0 \<le> mt"
  shows "result_ok gr start goal mt (space_time_a_star gr s start goal t0 rid mt)"
  unfolding space_time_a_star_def
  by (rule a_star_loop_ok) (simp add: heappush_def good_def assms)









section \<open>Completion reports\<close>

lemma update_job_fields [state_simps]:
  "robots (update_job s a f) = robots s"
  "jobs (update_job s a f) = jobs s"
  "job_queue (update_job s a f) = job_queue s"
  "reservations (update_job s a f) = reservations s"
  "next_obj (update_job s a f) = next_obj s"
  "job_objs (update_job s a f) = (job_objs s)(a := f (job_objs s a))"
  by (simp_all add: update_job_def)

lemma update_robot_fields [state_simps]:
  "robots (update_robot s rid f) = dict_update (robots s) rid f"
  "jobs (update_robot s rid f) = jobs s"
  "job_queue (update_robot s rid f) = job_queue s"
  "reservations (update_robot s rid f) = reservations s"
  "next_obj (update_robot s rid f) = next_obj s"
  "job_objs (update_robot s rid f) = job_objs s"
  by (simp_all add: update_robot_def)


lemma dict_update_absent:
  "map_of d k = None \<Longrightarrow> dict_update d k f = d"
  by (induction d k f rule: dict_update.induct) (auto split: if_splits)


text \<open>The robot's entry after \<open>report_location\<close> and after \<open>finish_job\<close>.\<close>

lemma report_location_fields:
  "jobs (report_location rid n d f st now s) = jobs s"
  "job_queue (report_location rid n d f st now s) = job_queue s"
  "reservations (report_location rid n d f st now s) = reservations s"
  "next_obj (report_location rid n d f st now s) = next_obj s"
  by (simp_all add: report_location_def Let_def state_simps split: option.splits prod.splits)

lemma report_location_robot:
  assumes "dict_get (robots s) rid = Some r"
  shows "\<exists>r'. dict_get (robots (report_location rid n d f st now s)) rid = Some r' \<and>
              current_job r' = current_job r \<and> node r' = n"
  using assms
  by (auto simp: report_location_def Let_def state_simps dict_get_def map_of_dict_update
           split: option.splits prod.splits)

lemma finish_job_fields:
  "jobs (finish_job rid s) = jobs s"
  "job_queue (finish_job rid s) = job_queue s"
  "next_obj (finish_job rid s) = next_obj s"
  "reservations (finish_job rid s) = release_owner (reservations s) rid"
  by (simp_all add: finish_job_def Let_def state_simps split: option.splits)

lemma finish_job_robot:
  assumes "dict_get (robots s) rid = Some r"
  shows "dict_get (robots (finish_job rid s)) rid
           = Some (r\<lparr>status := Idle, current_path := [], current_job := None\<rparr>)"
  using assms
  by (auto simp: finish_job_def Let_def state_simps dict_get_def map_of_dict_update
           split: option.splits)








section \<open>Auto-parking\<close>

lemma hd_sort_least:
  fixes xs :: "('a :: linorder) list"
  assumes "xs \<noteq> []"
  shows "hd (sort xs) \<in> set xs \<and> (\<forall>x \<in> set xs. hd (sort xs) \<le> x)"
proof (cases "sort xs")
  case Nil
  then have "length (sort xs) = 0" by simp
  then show ?thesis using assms by simp
next
  case (Cons y ys)
  have "sorted (y # ys)" using sorted_sort [of xs] Cons by simp
  then have "\<forall>x \<in> set (y # ys). y \<le> x" by auto
  moreover have "set (y # ys) = set xs" using set_sort [of "\<lambda>x. x" xs] Cons by simp
  ultimately show ?thesis using Cons by auto
qed

lemma parking_nodes_nonempty: "\<forall>p \<in> set PARKING_NODES. p \<noteq> []"
  by (simp add: PARKING_NODES_def)

lemma find_nearest_parking_least:
  assumes "find_nearest_parking s n = Some p"
  shows "p \<in> set PARKING_NODES \<and> p \<noteq> [] \<and> \<not> occupied s p \<and>
         (\<forall>q \<in> set PARKING_NODES. \<not> occupied s q \<longrightarrow> get_manhattan_dist n p \<le> get_manhattan_dist n q)"
proof -
  let ?free = "filter (\<lambda>p. \<not> occupied s p) PARKING_NODES"
  let ?c = "map (\<lambda>p. (get_manhattan_dist n p, p)) ?free"
  from assms have ne: "?c \<noteq> []" and p: "p = snd (hd (sort ?c))"
    by (auto simp: find_nearest_parking_def Let_def split: if_splits)
  from hd_sort_least [OF ne] have mem: "hd (sort ?c) \<in> set ?c"
    and least: "\<forall>x \<in> set ?c. hd (sort ?c) \<le> x" by blast+
  from mem obtain p' where p': "p' \<in> set ?free" "hd (sort ?c) = (get_manhattan_dist n p', p')"
    by auto
  have pp: "p = p'" using p p' by simp
  have "\<forall>q \<in> set ?free. get_manhattan_dist n p \<le> get_manhattan_dist n q"
  proof
    fix q assume "q \<in> set ?free"
    then have "(get_manhattan_dist n q, q) \<in> set ?c" by auto
    with least have "hd (sort ?c) \<le> (get_manhattan_dist n q, q)" by blast
    then show "get_manhattan_dist n p \<le> get_manhattan_dist n q"
      unfolding p'(2) pp by (auto simp: less_eq_prod_def)
  qed
  then show ?thesis using p'(1) pp parking_nodes_nonempty by auto
qed

text \<open>No parking cell is found exactly when an idle robot stands on every parking cell.\<close>

lemma find_nearest_parking_none:
  "find_nearest_parking s n = None \<longleftrightarrow> (\<forall>q \<in> set PARKING_NODES. occupied s q)"
  by (auto simp: find_nearest_parking_def Let_def filter_empty_conv)

lemma reserve_cells_before:
  "u < t \<Longrightarrow> reserve_cells res ns t rid (c, u) = res (c, u)"
  by (induction ns arbitrary: res t) auto

lemma reserve_cells_nth:
  "i < length ns \<Longrightarrow> reserve_cells res ns t rid (ns ! i, t + int i) = Some rid"
proof (induction ns arbitrary: res t i)
  case Nil
  then show ?case by simp
next
  case (Cons n ns)
  show ?case
  proof (cases i)
    case 0
    then show ?thesis by (simp add: reserve_cells_before)
  next
    case (Suc j)
    then have "j < length ns" using Cons.prems by simp
    from Cons.IH [OF this, of "res((n, t) \<mapsto> rid)" "t + 1"]
    have "reserve_cells (res((n, t) \<mapsto> rid)) ns (t + 1) rid (ns ! j, (t + 1) + int j) = Some rid" .
    moreover have "t + int (Suc j) = (t + 1) + int j" by simp
    ultimately show ?thesis unfolding Suc by (simp only: reserve_cells.simps nth_Cons_Suc)
  qed
qed

lemma create_system_job_fields [state_simps]:
  "robots (fst (create_system_job s jid ts pk dr rid)) = robots s"
  "reservations (fst (create_system_job s jid ts pk dr rid)) = reservations s"
  "job_queue (fst (create_system_job s jid ts pk dr rid)) = job_queue s"
  "jobs (fst (create_system_job s jid ts pk dr rid)) = dict_set (jobs s) jid (next_obj s)"
  "snd (create_system_job s jid ts pk dr rid) = next_obj s"
  "job_objs (fst (create_system_job s jid ts pk dr rid)) (next_obj s) =
     \<lparr>job_id = jid, pickup = pk, drop_node = dr, submitted_ts = ts,
      job_status = (if rid \<noteq> [] then Assigned else Queued),
      assigned_robot = Some rid, progress_index = None, path = None, plan = None,
      plan_str = None, progress_trace = [], reports = []\<rparr>"
  by (simp_all add: create_system_job_def Let_def)

lemma reserve_path_trajectory_fields [state_simps]:
  "robots (reserve_path_trajectory s p t rid) = robots s"
  "jobs (reserve_path_trajectory s p t rid) = jobs s"
  "job_queue (reserve_path_trajectory s p t rid) = job_queue s"
  "job_objs (reserve_path_trajectory s p t rid) = job_objs s"
  "next_obj (reserve_path_trajectory s p t rid) = next_obj s"
  "reservations (reserve_path_trajectory s p t rid)
     = reserve_cells (release_owner (reservations s) rid) p t rid"
  by (simp_all add: reserve_path_trajectory_def)

lemma auto_park_job:
  assumes fnp: "find_nearest_parking s n = Some p" and ne: "p \<noteq> []"
    and run: "auto_park rid n uuid now ct s = (s', e)"
  shows "dict_get (jobs s') uuid = Some (next_obj s) \<and>
         job_id (job_objs s' (next_obj s)) = uuid \<and>
         pickup (job_objs s' (next_obj s)) = n \<and>
         drop_node (job_objs s' (next_obj s)) = p \<and>
         assigned_robot (job_objs s' (next_obj s)) = Some rid"
  using run unfolding auto_park_def fnp
  by (cases "create_system_job s uuid now n p rid")
     (auto simp: ne Let_def state_simps dict_get_def map_of_dict_set create_system_job_def
           split: sum.splits option.splits if_splits prod.splits)


lemma auto_park_planned:
  assumes fnp: "find_nearest_parking s n = Some p" and ne: "p \<noteq> []"
    and known: "dict_get (robots s) rid = Some r7"
    and run: "auto_park rid n uuid now ct s = (s', None)"
    and pl: "space_time_a_star GRAPH (fst (create_system_job s uuid now n p rid)) n p ct rid
               MAX_SEARCH_DEPTH = Inr (Some pp)"
  shows "path (job_objs s' (next_obj s)) = Some pp \<and>
         dict_get (robots s') rid
           = Some (r7\<lparr>status := Busy, current_job := Some uuid, current_path := pp\<rparr>) \<and>
         (\<forall>i < length pp. reservations s' (pp ! i, ct + int i) = Some rid)"
proof -
  have "result_ok GRAPH n p MAX_SEARCH_DEPTH
          (space_time_a_star GRAPH (fst (create_system_job s uuid now n p rid)) n p ct rid
             MAX_SEARCH_DEPTH)"
    by (rule space_time_a_star_ok) (simp add: MAX_SEARCH_DEPTH_def)
  then have pp: "pp \<noteq> []" unfolding pl by (simp add: result_ok_def)
  have idx: "dict_index (robots s) rid = Inr r7"
    using known by (simp add: dict_index_def dict_get_def)
  show ?thesis
    using run unfolding auto_park_def fnp
    by (auto simp: ne pp pl idx Let_def split_beta state_simps dict_get_def map_of_dict_update
          reserve_cells_nth known [unfolded dict_get_def]
          split: sum.splits option.splits if_splits prod.splits)
qed

lemma auto_park_failed:
  assumes fnp: "find_nearest_parking s n = Some p" and ne: "p \<noteq> []"
    and known: "dict_get (robots s) rid = Some r7"
    and run: "auto_park rid n uuid now ct s = (s', e)"
    and pl: "space_time_a_star GRAPH (fst (create_system_job s uuid now n p rid)) n p ct rid
               MAX_SEARCH_DEPTH = Inr None"
  shows "e = None \<and> job_status (job_objs s' (next_obj s)) = Failed \<and>
         dict_get (robots s') rid = Some r7"
  using run unfolding auto_park_def fnp
  by (auto simp: ne pl Let_def split_beta state_simps known)


text \<open>
  Claim C7 says that a \<^verbatim>\<open>job_done\<close> reported on a cell that is not a parking cell
  makes the server synthesize a parking job. The handler guards this with
  \<^verbatim>\<open>if parking_spot\<close>: when an idle robot stands on every parking cell,
  \<^verbatim>\<open>find_nearest_parking\<close> returns nothing and no job is created. Robot \<^verbatim>\<open>r1\<close> reports
  \<^verbatim>\<open>job_done\<close> on cell 71, which is not a parking cell; the request ends after the
  robot has been made idle, with the job table as it was and no job dictionary added.
\<close>

theorem job_done_without_free_parking:
  "''71'' \<notin> set PARKING_NODES \<and>
   update_location ''r1'' ''71'' (Some ''job_done'') None None None ''u9'' 105 105 full_parking_state
     = (finish_job ''r1'' (report_location ''r1'' ''71'' None None None 105 full_parking_state), None) \<and>
   jobs (finish_job ''r1'' (report_location ''r1'' ''71'' None None None 105 full_parking_state))
     = jobs full_parking_state \<and>
   next_obj (finish_job ''r1'' (report_location ''r1'' ''71'' None None None 105 full_parking_state))
     = next_obj full_parking_state"
proof -
  have a: "''71'' \<notin> set PARKING_NODES" by (simp add: PARKING_NODES_def)
  have k: "dict_get (robots full_parking_state) ''r1'' \<noteq> None"
    by (simp add: full_parking_state_def busy_state_def dict_get_def)
  have f: "find_nearest_parking
             (finish_job ''r1'' (report_location ''r1'' ''71'' None None None 105 full_parking_state))
             ''71'' = None"
    by code_simp
  have b: "update_location ''r1'' ''71'' (Some ''job_done'') None None None ''u9'' 105 105 full_parking_state
     = (finish_job ''r1'' (report_location ''r1'' ''71'' None None None 105 full_parking_state), None)"
    using a k by (auto simp: update_location_def Let_def auto_park_def f)
  show ?thesis using a b by (simp add: finish_job_fields report_location_fields)
qed

text \<open>
  Claim C7, amended. Let a known robot report \<^verbatim>\<open>job_done\<close> on cell \<open>n\<close>, and let
  \<open>s7\<close> be the state once its job is marked done, the robot is idle without a current
  job and its reservations are released; no job has been created up to there.

  \<^item> If \<open>n\<close> is a parking cell, the request ends in \<open>s7\<close>: no parking job, robot idle.
  \<^item> If \<open>n\<close> is not a parking cell and every parking cell is occupied (an idle robot
    stands on it), the request ends in \<open>s7\<close> as well: no parking job, robot idle.
  \<^item> If \<open>n\<close> is not a parking cell and some parking cell is unoccupied, a cell \<open>p\<close>
    is chosen that is an unoccupied parking cell at the least Manhattan distance from
    \<open>n\<close>, and a job with pickup \<open>n\<close> and drop \<open>p\<close> is entered in the job table for the
    robot. If the planner finds a path and the request raises no exception, that path
    is stored in the job, the robot is busy with the job, and every cell of the path is
    reserved for the robot at its second. If the planner finds no path, the job is
    marked failed and the robot stays idle.
\<close>

theorem job_done_auto_park:
  assumes known: "dict_get (robots s) rid = Some r"
    and s7: "s7 = finish_job rid (report_location rid n dir_in facing_in step now s)"
    and run: "update_location rid n (Some ''job_done'') dir_in facing_in step uuid now ct s = (s', e)"
  shows "(\<exists>r7. dict_get (robots s7) rid = Some r7 \<and> status r7 = Idle \<and> current_job r7 = None) \<and>
         jobs s7 = jobs s \<and> next_obj s7 = next_obj s \<and>
         (n \<in> set PARKING_NODES \<longrightarrow> s' = s7 \<and> e = None) \<and>
         (n \<notin> set PARKING_NODES \<longrightarrow>
            ((\<forall>q \<in> set PARKING_NODES. occupied s7 q) \<longrightarrow> s' = s7 \<and> e = None) \<and>
            ((\<exists>q \<in> set PARKING_NODES. \<not> occupied s7 q) \<longrightarrow>
             (\<exists>p. find_nearest_parking s7 n = Some p \<and>
               p \<in> set PARKING_NODES \<and> \<not> occupied s7 p \<and>
               (\<forall>q \<in> set PARKING_NODES. \<not> occupied s7 q \<longrightarrow>
                  get_manhattan_dist n p \<le> get_manhattan_dist n q) \<and>
               dict_get (jobs s') uuid = Some (next_obj s) \<and>
               job_id (job_objs s' (next_obj s)) = uuid \<and>
               pickup (job_objs s' (next_obj s)) = n \<and>
               drop_node (job_objs s' (next_obj s)) = p \<and>
               assigned_robot (job_objs s' (next_obj s)) = Some rid \<and>
               (\<forall>pp. space_time_a_star GRAPH (fst (create_system_job s7 uuid now n p rid)) n p
                        ct rid MAX_SEARCH_DEPTH = Inr (Some pp) \<and> e = None \<longrightarrow>
                  path (job_objs s' (next_obj s)) = Some pp \<and>
                  (\<exists>r'. dict_get (robots s') rid = Some r' \<and> status r' = Busy \<and>
                        current_job r' = Some uuid \<and> current_path r' = pp) \<and>
                  (\<forall>i < length pp. reservations s' (pp ! i, ct + int i) = Some rid)) \<and>
               (space_time_a_star GRAPH (fst (create_system_job s7 uuid now n p rid)) n p
                  ct rid MAX_SEARCH_DEPTH = Inr None \<longrightarrow>
                  e = None \<and> job_status (job_objs s' (next_obj s)) = Failed \<and>
                  (\<exists>r'. dict_get (robots s') rid = Some r' \<and> status r' = Idle \<and>
                        current_job r' = None)))))"
proof -
  let ?s4 = "report_location rid n dir_in facing_in step now s"
  from report_location_robot [OF known] obtain r4 where
    r4: "dict_get (robots ?s4) rid = Some r4" by blast
  let ?r7 = "r4\<lparr>status := Idle, current_path := [], current_job := None\<rparr>"
  have r7: "dict_get (robots s7) rid = Some ?r7"
    unfolding s7 by (rule finish_job_robot [OF r4])
  have c1: "\<exists>r7. dict_get (robots s7) rid = Some r7 \<and> status r7 = Idle \<and> current_job r7 = None"
    using r7 by simp
  have c2: "jobs s7 = jobs s" and c3: "next_obj s7 = next_obj s"
    unfolding s7 by (simp_all add: finish_job_fields report_location_fields)
  have c4: "n \<in> set PARKING_NODES \<longrightarrow> s' = s7 \<and> e = None"
    using run known unfolding s7 by (auto simp: update_location_def Let_def)
  have c5: "n \<notin> set PARKING_NODES \<longrightarrow>
            (\<forall>q \<in> set PARKING_NODES. occupied s7 q) \<longrightarrow> s' = s7 \<and> e = None"
  proof (intro impI)
    assume np: "n \<notin> set PARKING_NODES" and full: "\<forall>q \<in> set PARKING_NODES. occupied s7 q"
    have ap: "auto_park rid n uuid now ct s7 = (s', e)"
      using run known np unfolding s7 by (simp add: update_location_def Let_def)
    have "find_nearest_parking s7 n = None"
      using full by (simp add: find_nearest_parking_none)
    then show "s' = s7 \<and> e = None" using ap by (simp add: auto_park_def)
  qed
  have c6: "n \<notin> set PARKING_NODES \<longrightarrow> (\<exists>q \<in> set PARKING_NODES. \<not> occupied s7 q) \<longrightarrow>
            (\<exists>p. find_nearest_parking s7 n = Some p \<and>
               p \<in> set PARKING_NODES \<and> \<not> occupied s7 p \<and>
               (\<forall>q \<in> set PARKING_NODES. \<not> occupied s7 q \<longrightarrow>
                  get_manhattan_dist n p \<le> get_manhattan_dist n q) \<and>
               dict_get (jobs s') uuid = Some (next_obj s) \<and>
               job_id (job_objs s' (next_obj s)) = uuid \<and>
               pickup (job_objs s' (next_obj s)) = n \<and>
               drop_node (job_objs s' (next_obj s)) = p \<and>
               assigned_robot (job_objs s' (next_obj s)) = Some rid \<and>
               (\<forall>pp. space_time_a_star GRAPH (fst (create_system_job s7 uuid now n p rid)) n p
                        ct rid MAX_SEARCH_DEPTH = Inr (Some pp) \<and> e = None \<longrightarrow>
                  path (job_objs s' (next_obj s)) = Some pp \<and>
                  (\<exists>r'. dict_get (robots s') rid = Some r' \<and> status r' = Busy \<and>
                        current_job r' = Some uuid \<and> current_path r' = pp) \<and>
                  (\<forall>i < length pp. reservations s' (pp ! i, ct + int i) = Some rid)) \<and>
               (space_time_a_star GRAPH (fst (create_system_job s7 uuid now n p rid)) n p
                  ct rid MAX_SEARCH_DEPTH = Inr None \<longrightarrow>
                  e = None \<and> job_status (job_objs s' (next_obj s)) = Failed \<and>
                  (\<exists>r'. dict_get (robots s') rid = Some r' \<and> status r' = Idle \<and>
                        current_job r' = None)))"
  proof (intro impI)
    assume np: "n \<notin> set PARKING_NODES" and free: "\<exists>q \<in> set PARKING_NODES. \<not> occupied s7 q"
    from free have "find_nearest_parking s7 n \<noteq> None"
      by (simp add: find_nearest_parking_none)
    then obtain p where fnp: "find_nearest_parking s7 n = Some p" by (cases "find_nearest_parking s7 n") simp_all
    have ap: "auto_park rid n uuid now ct s7 = (s', e)"
      using run known np unfolding s7 by (simp add: update_location_def Let_def)
    note least = find_nearest_parking_least [OF fnp]
    then have ne: "p \<noteq> []" by simp
    note jb = auto_park_job [OF fnp ne ap, unfolded c3]
    have planned: "\<forall>pp. space_time_a_star GRAPH (fst (create_system_job s7 uuid now n p rid)) n p
                        ct rid MAX_SEARCH_DEPTH = Inr (Some pp) \<and> e = None \<longrightarrow>
                  path (job_objs s' (next_obj s)) = Some pp \<and>
                  (\<exists>r'. dict_get (robots s') rid = Some r' \<and> status r' = Busy \<and>
                        current_job r' = Some uuid \<and> current_path r' = pp) \<and>
                  (\<forall>i < length pp. reservations s' (pp ! i, ct + int i) = Some rid)"
    proof (intro allI impI)
      fix pp
      assume h: "space_time_a_star GRAPH (fst (create_system_job s7 uuid now n p rid)) n p
                        ct rid MAX_SEARCH_DEPTH = Inr (Some pp) \<and> e = None"
      then have ap': "auto_park rid n uuid now ct s7 = (s', None)" using ap by simp
      from auto_park_planned [OF fnp ne r7 ap' h [THEN conjunct1], unfolded c3]
      show "path (job_objs s' (next_obj s)) = Some pp \<and>
                  (\<exists>r'. dict_get (robots s') rid = Some r' \<and> status r' = Busy \<and>
                        current_job r' = Some uuid \<and> current_path r' = pp) \<and>
                  (\<forall>i < length pp. reservations s' (pp ! i, ct + int i) = Some rid)"
        by simp
    qed
    have failed: "space_time_a_star GRAPH (fst (create_system_job s7 uuid now n p rid)) n p
                  ct rid MAX_SEARCH_DEPTH = Inr None \<longrightarrow>
                  e = None \<and> job_status (job_objs s' (next_obj s)) = Failed \<and>
                  (\<exists>r'. dict_get (robots s') rid = Some r' \<and> status r' = Idle \<and>
                        current_job r' = None)"
    proof
      assume h: "space_time_a_star GRAPH (fst (create_system_job s7 uuid now n p rid)) n p
                  ct rid MAX_SEARCH_DEPTH = Inr None"
      from auto_park_failed [OF fnp ne r7 ap h, unfolded c3]
      show "e = None \<and> job_status (job_objs s' (next_obj s)) = Failed \<and>
                  (\<exists>r'. dict_get (robots s') rid = Some r' \<and> status r' = Idle \<and>
                        current_job r' = None)"
        by simp
    qed
    have body: "p \<in> set PARKING_NODES \<and> \<not> occupied s7 p \<and>
               (\<forall>q \<in> set PARKING_NODES. \<not> occupied s7 q \<longrightarrow>
                  get_manhattan_dist n p \<le> get_manhattan_dist n q) \<and>
               dict_get (jobs s') uuid = Some (next_obj s) \<and>
               job_id (job_objs s' (next_obj s)) = uuid \<and>
               pickup (job_objs s' (next_obj s)) = n \<and>
               drop_node (job_objs s' (next_obj s)) = p \<and>
               assigned_robot (job_objs s' (next_obj s)) = Some rid \<and>
               (\<forall>pp. space_time_a_star GRAPH (fst (create_system_job s7 uuid now n p rid)) n p
                        ct rid MAX_SEARCH_DEPTH = Inr (Some pp) \<and> e = None \<longrightarrow>
                  path (job_objs s' (next_obj s)) = Some pp \<and>
                  (\<exists>r'. dict_get (robots s') rid = Some r' \<and> status r' = Busy \<and>
                        current_job r' = Some uuid \<and> current_path r' = pp) \<and>
                  (\<forall>i < length pp. reservations s' (pp ! i, ct + int i) = Some rid)) \<and>
               (space_time_a_star GRAPH (fst (create_system_job s7 uuid now n p rid)) n p
                  ct rid MAX_SEARCH_DEPTH = Inr None \<longrightarrow>
                  e = None \<and> job_status (job_objs s' (next_obj s)) = Failed \<and>
                  (\<exists>r'. dict_get (robots s') rid = Some r' \<and> status r' = Idle \<and>
                        current_job r' = None))"
      using least jb planned failed by (intro conjI) simp_all
    show "\<exists>p. find_nearest_parking s7 n = Some p \<and>
               p \<in> set PARKING_NODES \<and> \<not> occupied s7 p \<and>
               (\<forall>q \<in> set PARKING_NODES. \<not> occupied s7 q \<longrightarrow>
                  get_manhattan_dist n p \<le> get_manhattan_dist n q) \<and>
               dict_get (jobs s') uuid = Some (next_obj s) \<and>
               job_id (job_objs s' (next_obj s)) = uuid \<and>
               pickup (job_objs s' (next_obj s)) = n \<and>
               drop_node (job_objs s' (next_obj s)) = p \<and>
               assigned_robot (job_objs s' (next_obj s)) = Some rid \<and>
               (\<forall>pp. space_time_a_star GRAPH (fst (create_system_job s7 uuid now n p rid)) n p
                        ct rid MAX_SEARCH_DEPTH = Inr (Some pp) \<and> e = None \<longrightarrow>
                  path (job_objs s' (next_obj s)) = Some pp \<and>
                  (\<exists>r'. dict_get (robots s') rid = Some r' \<and> status r' = Busy \<and>
                        current_job r' = Some uuid \<and> current_path r' = pp) \<and>
                  (\<forall>i < length pp. reservations s' (pp ! i, ct + int i) = Some rid)) \<and>
               (space_time_a_star GRAPH (fst (create_system_job s7 uuid now n p rid)) n p
                  ct rid MAX_SEARCH_DEPTH = Inr None \<longrightarrow>
                  e = None \<and> job_status (job_objs s' (next_obj s)) = Failed \<and>
                  (\<exists>r'. dict_get (robots s') rid = Some r' \<and> status r' = Idle \<and>
                        current_job r' = None))"
      by (rule exI [where x = p], rule conjI [OF fnp body])
  qed
  have c56: "n \<notin> set PARKING_NODES \<longrightarrow>
            ((\<forall>q \<in> set PARKING_NODES. occupied s7 q) \<longrightarrow> s' = s7 \<and> e = None) \<and>
            ((\<exists>q \<in> set PARKING_NODES. \<not> occupied s7 q) \<longrightarrow>
            (\<exists>p. find_nearest_parking s7 n = Some p \<and>
               p \<in> set PARKING_NODES \<and> \<not> occupied s7 p \<and>
               (\<forall>q \<in> set PARKING_NODES. \<not> occupied s7 q \<longrightarrow>
                  get_manhattan_dist n p \<le> get_manhattan_dist n q) \<and>
               dict_get (jobs s') uuid = Some (next_obj s) \<and>
               job_id (job_objs s' (next_obj s)) = uuid \<and>
               pickup (job_objs s' (next_obj s)) = n \<and>
               drop_node (job_objs s' (next_obj s)) = p \<and>
               assigned_robot (job_objs s' (next_obj s)) = Some rid \<and>
               (\<forall>pp. space_time_a_star GRAPH (fst (create_system_job s7 uuid now n p rid)) n p
                        ct rid MAX_SEARCH_DEPTH = Inr (Some pp) \<and> e = None \<longrightarrow>
                  path (job_objs s' (next_obj s)) = Some pp \<and>
                  (\<exists>r'. dict_get (robots s') rid = Some r' \<and> status r' = Busy \<and>
                        current_job r' = Some uuid \<and> current_path r' = pp) \<and>
                  (\<forall>i < length pp. reservations s' (pp ! i, ct + int i) = Some rid)) \<and>
               (space_time_a_star GRAPH (fst (create_system_job s7 uuid now n p rid)) n p
                  ct rid MAX_SEARCH_DEPTH = Inr None \<longrightarrow>
                  e = None \<and> job_status (job_objs s' (next_obj s)) = Failed \<and>
                  (\<exists>r'. dict_get (robots s') rid = Some r' \<and> status r' = Idle \<and>
                        current_job r' = None))))"
    by (rule impI, rule conjI) (rule c5 [THEN mp], assumption, rule c6 [THEN mp], assumption)
  show ?thesis
    by (intro conjI) (rule c1, rule c2, rule c3, rule c4, rule c56)
qed

theorem job_done_auto_park_witness:
  "dict_get (robots busy_state) ''r1'' =
     Some \<lparr>status = Busy, node = ''72'', last_seen = 99, color = ''#a0a0a0'',
           current_path = [''72'', ''71'', ''81''], dir = ''w'', current_job = Some ''j1''\<rparr> \<and>
   ''71'' \<notin> set PARKING_NODES \<and>
   find_nearest_parking
     (finish_job ''r1'' (report_location ''r1'' ''71'' None None None 105 busy_state)) ''71''
     = Some ''81'' \<and>
   space_time_a_star GRAPH
     (fst (create_system_job
        (finish_job ''r1'' (report_location ''r1'' ''71'' None None None 105 busy_state))
        ''u9'' 105 ''71'' ''81'' ''r1''))
     ''71'' ''81'' 105 ''r1'' MAX_SEARCH_DEPTH = Inr (Some [''71'', ''81'']) \<and>
   snd (update_location ''r1'' ''71'' (Some ''job_done'') None None None ''u9'' 105 105 busy_state) = None \<and>
   pickup (job_objs (fst (update_location ''r1'' ''71'' (Some ''job_done'') None None None ''u9'' 105 105
     busy_state)) (next_obj busy_state)) = ''71'' \<and>
   drop_node (job_objs (fst (update_location ''r1'' ''71'' (Some ''job_done'') None None None ''u9'' 105 105
     busy_state)) (next_obj busy_state)) = ''81'' \<and>
   path (job_objs (fst (update_location ''r1'' ''71'' (Some ''job_done'') None None None ''u9'' 105 105
     busy_state)) (next_obj busy_state)) = Some [''71'', ''81''] \<and>
   (\<exists>r'. dict_get (robots (fst (update_location ''r1'' ''71'' (Some ''job_done'') None None None ''u9''
            105 105 busy_state))) ''r1'' = Some r' \<and>
         status r' = Busy \<and> current_job r' = Some ''u9'' \<and> current_path r' = [''71'', ''81'']) \<and>
   reservations (fst (update_location ''r1'' ''71'' (Some ''job_done'') None None None ''u9'' 105 105
     busy_state)) (''81'', 106) = Some ''r1''"
proof -
  let ?s7 = "finish_job ''r1'' (report_location ''r1'' ''71'' None None None 105 busy_state)"
  let ?u = "update_location ''r1'' ''71'' (Some ''job_done'') None None None ''u9'' 105 105 busy_state"
  have k: "dict_get (robots busy_state) ''r1'' =
     Some \<lparr>status = Busy, node = ''72'', last_seen = 99, color = ''#a0a0a0'',
           current_path = [''72'', ''71'', ''81''], dir = ''w'', current_job = Some ''j1''\<rparr>"
    by (simp add: busy_state_def dict_get_def)
  have np: "''71'' \<notin> set PARKING_NODES" by (simp add: PARKING_NODES_def)
  have fnp: "find_nearest_parking ?s7 ''71'' = Some ''81''" by code_simp
  have pl: "space_time_a_star GRAPH (fst (create_system_job ?s7 ''u9'' 105 ''71'' ''81'' ''r1''))
     ''71'' ''81'' 105 ''r1'' MAX_SEARCH_DEPTH = Inr (Some [''71'', ''81''])"
    by code_simp
  have e: "snd ?u = None" by code_simp
  have run: "?u = (fst ?u, snd ?u)" by (rule prod.collapse [symmetric])
  note t = job_done_auto_park [OF k refl run]
  have mem: "''81'' \<in> set PARKING_NODES" by (simp add: PARKING_NODES_def)
  have fr: "\<not> occupied ?s7 ''81''" by code_simp
  have free: "\<exists>q \<in> set PARKING_NODES. \<not> occupied ?s7 q"
    by (rule bexI [where x = "''81''"]) (rule fr, rule mem)
  note t4 = t [THEN conjunct2, THEN conjunct2, THEN conjunct2, THEN conjunct2, THEN mp, OF np]
  from t4 [THEN conjunct2, THEN mp, OF free]
  obtain p where p: "find_nearest_parking ?s7 ''71'' = Some p"
    and pk: "pickup (job_objs (fst ?u) (next_obj busy_state)) = ''71''"
    and dp: "drop_node (job_objs (fst ?u) (next_obj busy_state)) = p"
    and pln: "\<forall>pp. space_time_a_star GRAPH (fst (create_system_job ?s7 ''u9'' 105 ''71'' p ''r1''))
                 ''71'' p 105 ''r1'' MAX_SEARCH_DEPTH = Inr (Some pp) \<and> snd ?u = None \<longrightarrow>
               path (job_objs (fst ?u) (next_obj busy_state)) = Some pp \<and>
               (\<exists>r'. dict_get (robots (fst ?u)) ''r1'' = Some r' \<and> status r' = Busy \<and>
                     current_job r' = Some ''u9'' \<and> current_path r' = pp) \<and>
               (\<forall>i < length pp. reservations (fst ?u) (pp ! i, 105 + int i) = Some ''r1'')"
    by (elim exE conjE)
  have pe: "p = ''81''" using p fnp by simp
  have dr: "drop_node (job_objs (fst ?u) (next_obj busy_state)) = ''81''"
    using dp pe by simp
  have planned: "path (job_objs (fst ?u) (next_obj busy_state)) = Some [''71'', ''81''] \<and>
      (\<exists>r'. dict_get (robots (fst ?u)) ''r1'' = Some r' \<and> status r' = Busy \<and>
            current_job r' = Some ''u9'' \<and> current_path r' = [''71'', ''81'']) \<and>
      (\<forall>i < length [''71'', ''81'']. reservations (fst ?u) ([''71'', ''81''] ! i, 105 + int i)
          = Some ''r1'')"
    by (rule pln [unfolded pe, THEN spec, THEN mp]) (rule conjI [OF pl e])
  from planned have al: "\<forall>i < length [''71'', ''81'']. reservations (fst ?u)
      ([''71'', ''81''] ! i, 105 + int i) = Some ''r1''"
    by (elim conjE)
  have "reservations (fst ?u) ([''71'', ''81''] ! 1, 105 + int 1) = Some ''r1''"
    by (rule al [rule_format]) simp
  then have rs: "reservations (fst ?u) (''81'', 106) = Some ''r1''" by simp
  show ?thesis
    apply (intro conjI)
    apply (rule k, rule np, rule fnp, rule pl, rule e, rule pk, rule dr)
    apply (rule planned [THEN conjunct1])
    apply (rule planned [THEN conjunct2, THEN conjunct1])
    apply (rule rs)
    done
qed

section \<open>Reservations of distinct robots\<close>

text \<open>
  Claim C1 says that in every reachable state the plans of two distinct busy robots
  never put them on the same cell at the same time. The planner checks the cells it
  moves to, never the cell it starts from at the start time, and
  \<^verbatim>\<open>reserve_path_trajectory\<close> writes its keys whatever they held. In the run above the
  first tick gives \<^verbatim>\<open>r2\<close> the path 81, 71, 72 from time 100, so that \<^verbatim>\<open>r2\<close> holds cell
  71 at time 101; the second tick gives \<^verbatim>\<open>r1\<close>, which stands on 71, the path 71, 81
  from time 101. Both robots are busy, both jobs are assigned, the second cell of the
  first path is the first cell of the second path, at the same time 101, and the
  reservation of cell 71 at time 101 has passed from \<^verbatim>\<open>r2\<close> to \<^verbatim>\<open>r1\<close>.
\<close>

theorem vertex_collision_reachable:
  "job_objs first_plan_state 0 =
     \<lparr>job_id = ''j1'', pickup = ''71'', drop_node = ''72'', submitted_ts = 99,
      job_status = Assigned, assigned_robot = Some ''r2'', progress_index = None,
      path = Some [''81'', ''71'', ''72''],
      plan = Some [(''81'', CmdS), (''71'', CmdR), (''72'', CmdD)],
      plan_str = Some ''81 S 71 R 72 D'', progress_trace = [], reports = []\<rparr> \<and>
   reservations first_plan_state (''71'', 101) = Some ''r2'' \<and>
   robots collision_state =
     [(''r2'', \<lparr>status = Busy, node = ''81'', last_seen = 98, color = ''#222222'',
               current_path = [''81'', ''71'', ''72''], dir = ''n'', current_job = Some ''j1''\<rparr>),
      (''r1'', \<lparr>status = Busy, node = ''71'', last_seen = 100, color = ''#111111'',
               current_path = [''71'', ''81''], dir = ''s'', current_job = Some ''j2''\<rparr>)] \<and>
   job_objs collision_state 0 = job_objs first_plan_state 0 \<and>
   job_objs collision_state 1 =
     \<lparr>job_id = ''j2'', pickup = ''71'', drop_node = ''81'', submitted_ts = 100,
      job_status = Assigned, assigned_robot = Some ''r1'', progress_index = None,
      path = Some [''71'', ''81''],
      plan = Some [(''71'', CmdS), (''81'', CmdD)],
      plan_str = Some ''71 S 81 D'', progress_trace = [], reports = []\<rparr> \<and>
   [''81'', ''71'', ''72''] ! 1 = [''71'', ''81''] ! 0 \<and>
   (100 :: int) + int 1 = 101 + int 0 \<and>
   reservations collision_state (''71'', 101) = Some ''r1''"
proof -
  have a: "job_objs first_plan_state 0 =
     \<lparr>job_id = ''j1'', pickup = ''71'', drop_node = ''72'', submitted_ts = 99,
      job_status = Assigned, assigned_robot = Some ''r2'', progress_index = None,
      path = Some [''81'', ''71'', ''72''],
      plan = Some [(''81'', CmdS), (''71'', CmdR), (''72'', CmdD)],
      plan_str = Some ''81 S 71 R 72 D'', progress_trace = [], reports = []\<rparr>"
    by code_simp
  have b: "reservations first_plan_state (''71'', 101) = Some ''r2''" by code_simp
  have c: "robots collision_state =
     [(''r2'', \<lparr>status = Busy, node = ''81'', last_seen = 98, color = ''#222222'',
               current_path = [''81'', ''71'', ''72''], dir = ''n'', current_job = Some ''j1''\<rparr>),
      (''r1'', \<lparr>status = Busy, node = ''71'', last_seen = 100, color = ''#111111'',
               current_path = [''71'', ''81''], dir = ''s'', current_job = Some ''j2''\<rparr>)]"
    by code_simp
  have d: "job_objs collision_state 0 = job_objs first_plan_state 0" by code_simp
  have e: "job_objs collision_state 1 =
     \<lparr>job_id = ''j2'', pickup = ''71'', drop_node = ''81'', submitted_ts = 100,
      job_status = Assigned, assigned_robot = Some ''r1'', progress_index = None,
      path = Some [''71'', ''81''],
      plan = Some [(''71'', CmdS), (''81'', CmdD)],
      plan_str = Some ''71 S 81 D'', progress_trace = [], reports = []\<rparr>"
    by code_simp
  have f: "[''81'', ''71'', ''72''] ! 1 = [''71'', ''81''] ! 0" by simp
  have g: "(100 :: int) + int 1 = 101 + int 0" by simp
  have h: "reservations collision_state (''71'', 101) = Some ''r1''" by code_simp
  show ?thesis
    apply (intro conjI)
    apply (rule a, rule b, rule c, rule d, rule e, rule f, rule g, rule h)
    done
qed

end
